theory Spec2Isabelle
  imports Main "HOL-Library.List_Lexorder"
begin

section \<open>JavaScript strings\<close>

text \<open>
  A JavaScript string is a sequence of UTF-16 code units; \<open>charCodeAt\<close> reads one of
  them. Literals of the source are written \<open>str ''...''\<close>.
\<close>

type_synonym jsstring = "nat list"

definition str :: "string \<Rightarrow> jsstring" where
  "str s = map of_char s"

text \<open>
  The truthiness of a value that is a string or \<open>undefined\<close> (\<open>None\<close>):
  \<open>undefined\<close> and the empty string are falsy.
\<close>

definition truthy :: "jsstring option \<Rightarrow> bool" where
  "truthy v = (case v of None \<Rightarrow> False | Some s \<Rightarrow> s \<noteq> [])"

text \<open>\<open>a || b\<close> on such values.\<close>

definition js_or :: "jsstring option \<Rightarrow> jsstring option \<Rightarrow> jsstring option" where
  "js_or a b = (if truthy a then a else b)"

section \<open>The media query evaluator (media-query.js)\<close>

subsection \<open>Tokens, expressions, queries\<close>

text \<open>
  The enumerable fields of a scanner, which \<open>take()\<close> copies into a token:
  \<open>offset\<close>, \<open>kind\<close>, \<open>text\<close> and \<open>stringValue\<close>. Each is \<open>undefined\<close>
  (\<open>None\<close>) until the first \<open>scan()\<close>. A kind is the number the \<open>Kind\<close>
  enumeration of scanner.js gives it.
\<close>

record token =
  t_offset :: "nat option"
  t_kind :: "nat option"
  t_text :: "jsstring option"
  t_stringValue :: "jsstring option"

text \<open>class Expression: \<open>featureToken\<close>, \<open>constantToken\<close> and the flag \<open>not\<close>.\<close>

record expression =
  featureToken :: token
  constantToken :: "token option"
  notted :: bool

text \<open>\<open>get feature() { return this.featureToken.text; }\<close>\<close>

definition feature :: "expression \<Rightarrow> jsstring option" where
  "feature e = t_text (featureToken e)"

text \<open>
  \<open>get constant() { return this.constantToken?.stringValue || this.constantToken?.text || undefined; }\<close>
\<close>

definition constant_val :: "expression \<Rightarrow> jsstring option" where
  "constant_val e =
     (case constantToken e of
        None \<Rightarrow> None
      | Some t \<Rightarrow> js_or (js_or (t_stringValue t) (t_text t)) None)"

record query =
  expressions :: "expression list"

text \<open>
  The errors the scanner and the parser throw, each a \<open>MediaQueryError\<close>. An error
  is modelled by its message; the token text a message quotes is its argument. The line
  and the column an error also carries come from the scanner's position bookkeeping
  (\<open>#line\<close>, \<open>#column\<close>, \<open>#map\<close>, \<open>positionFromOffset\<close>), which feeds nothing
  but these two numbers and is left out of the model.
\<close>

datatype error =
    DigitExpected
  | HexDigitExpected
  | BinaryDigitExpected
  | UnexpectedEndOfFile jsstring
  | InvalidEscapeSequence
  | ExpectedComma "jsstring option"
  | ExpectedConstant "jsstring option"
  | NotTwice
  | ExpectedCloseParen "jsstring option"
  | ExpectedExpression "jsstring option"

text \<open>class QueryList: the array \<open>queries\<close> and the field \<open>error\<close>.\<close>

record query_list =
  queries :: "query list"
  error :: "error option"

text \<open>\<open>get isValid() { return !this.error; }\<close>: an error object is truthy.\<close>

definition isValid :: "query_list \<Rightarrow> bool" where
  "isValid ql = (error ql = None)"

subsection \<open>Context values and their coercion\<close>

text \<open>
  The values a context can hold, by what \<open>typeof\<close> and \<open>Array.isArray\<close> tell
  \<open>stringValue\<close> about them. A number is given by the string its \<open>toString()\<close>
  returns. \<open>VOther\<close> stands for the remaining types (functions, symbols, bigints).
\<close>

datatype ctx_value =
    VString jsstring
  | VNumber jsstring
  | VBoolean bool
  | VNull
  | VArray "ctx_value list"
  | VObject
  | VUndefined
  | VOther

text \<open>
  \<open>function stringValue(value)\<close>; an empty array has \<open>value[0] === undefined\<close>.
\<close>

fun stringValue :: "ctx_value \<Rightarrow> jsstring option" where
  "stringValue (VString s) = Some s"
| "stringValue (VNumber s) = Some s"
| "stringValue (VBoolean b) = Some (if b then str ''true'' else str ''false'')"
| "stringValue VNull = Some (str ''true'')"
| "stringValue (VArray []) = js_or (stringValue VUndefined) (Some (str ''true''))"
| "stringValue (VArray (v # vs)) = js_or (stringValue v) (Some (str ''true''))"
| "stringValue VObject = Some (str ''true'')"
| "stringValue VUndefined = None"
| "stringValue VOther = None"

text \<open>
  A context is an object read by \<open>properties[feature]\<close>: a key that is not there
  reads as \<open>undefined\<close>. (Properties inherited from \<open>Object.prototype\<close> are not
  modelled.) A feature that is \<open>undefined\<close> would be read as the key \<open>"undefined"\<close>.
\<close>

type_synonym ctx = "jsstring \<rightharpoonup> ctx_value"

definition property :: "ctx \<Rightarrow> jsstring option \<Rightarrow> ctx_value" where
  "property properties f =
     (case properties (case f of None \<Rightarrow> str ''undefined'' | Some k \<Rightarrow> k) of
        None \<Rightarrow> VUndefined
      | Some v \<Rightarrow> v)"

subsection \<open>QueryList.match\<close>

text \<open>
  The body of the inner loop of \<open>match\<close> for one expression: \<open>True\<close> where the
  source reaches a \<open>continue\<close> (on to the next expression), \<open>False\<close> where it
  reaches \<open>continue queries\<close> (no match).
\<close>

definition expression_matches :: "ctx \<Rightarrow> expression \<Rightarrow> bool" where
  "expression_matches properties e =
     (let contextValue = stringValue (property properties (feature e));
          c = constant_val e
      in if notted e then
           (if truthy contextValue then
              (if truthy c \<and> contextValue \<noteq> c then True
               else if \<not> truthy c \<and> contextValue = Some (str ''false'') then True
               else False)
            else
              (if \<not> truthy c \<or> contextValue = Some (str ''false'') then True
               else False))
         else
           (if truthy contextValue then
              (if contextValue = c \<or> (contextValue \<noteq> Some (str ''false'') \<and> \<not> truthy c)
               then True else False)
            else
              (if c = Some (str ''false'') then True else False)))"

text \<open>The inner loop: every expression of the query has to match.\<close>

fun match_expressions :: "ctx \<Rightarrow> expression list \<Rightarrow> bool" where
  "match_expressions properties [] = True"
| "match_expressions properties (e # es) =
     (if expression_matches properties e then match_expressions properties es else False)"

text \<open>The outer loop: the first query that matches wins.\<close>

fun match_queries :: "ctx \<Rightarrow> query list \<Rightarrow> bool" where
  "match_queries properties [] = False"
| "match_queries properties (q # qs) =
     (if match_expressions properties (expressions q) then True
      else match_queries properties qs)"

definition match :: "query_list \<Rightarrow> ctx \<Rightarrow> bool" where
  "match ql properties = (if isValid ql then match_queries properties (queries ql) else False)"

text \<open>The expressions \<open>espidf\<close> and \<open>not espidf\<close>, as the parser builds them.\<close>

definition espidf_token :: token where
  "espidf_token =
     \<lparr>t_offset = Some 0, t_kind = Some 71, t_text = Some (str ''espidf''), t_stringValue = None\<rparr>"

definition bare_espidf :: expression where
  "bare_espidf = \<lparr>featureToken = espidf_token, constantToken = None, notted = False\<rparr>"

definition not_espidf :: expression where
  "not_espidf =
     \<lparr>featureToken = espidf_token\<lparr>t_offset := Some 4\<rparr>, constantToken = None, notted = True\<rparr>"

definition single :: "expression \<Rightarrow> query_list" where
  "single e = \<lparr>queries = [\<lparr>expressions = [e]\<rparr>], error = None\<rparr>"

section \<open>The scanner (scanner.js)\<close>

subsection \<open>Character classes\<close>

text \<open>
  Modelled from the spec: the module character-codes (\<open>sizeOf\<close>, \<open>isDigit\<close>,
  \<open>isHexDigit\<close>, \<open>isBinaryDigit\<close>, \<open>isLineBreak\<close>, \<open>isWhiteSpaceSingleLine\<close>,
  \<open>isIdentifierStart\<close>, \<open>isIdentifierPart\<close>) is not among the sources. The digits
  are those the scanner's messages name (0-9; 0-9, A-F, a-f; 0, 1), a line break is a
  carriage return or a line feed, the single-line white space is the set of characters
  for which \<open>scan\<close> calls \<open>scanWhitespace\<close>, an identifier starts with an ASCII
  letter, \<open>_\<close> or \<open>$\<close> and continues with these and digits, and \<open>sizeOf\<close> is
  the number of code units of the character that starts with a code unit: 2 for a high
  surrogate, 1 otherwise. A character is \<open>None\<close> where \<open>charCodeAt\<close> returns
  \<open>NaN\<close> (past the end of the text); every class is false there and the size is 1.
\<close>

definition isHighSurrogate :: "nat \<Rightarrow> bool" where
  "isHighSurrogate u = (55296 \<le> u \<and> u \<le> 56319)"

definition isLowSurrogate :: "nat \<Rightarrow> bool" where
  "isLowSurrogate u = (56320 \<le> u \<and> u \<le> 57343)"

definition sizeOf :: "nat option \<Rightarrow> nat" where
  "sizeOf c = (case c of None \<Rightarrow> 1 | Some u \<Rightarrow> if isHighSurrogate u then 2 else 1)"

definition isDigit :: "nat option \<Rightarrow> bool" where
  "isDigit c = (case c of None \<Rightarrow> False | Some u \<Rightarrow> 48 \<le> u \<and> u \<le> 57)"

definition isHexDigit :: "nat option \<Rightarrow> bool" where
  "isHexDigit c =
     (case c of None \<Rightarrow> False
      | Some u \<Rightarrow> (48 \<le> u \<and> u \<le> 57) \<or> (65 \<le> u \<and> u \<le> 70) \<or> (97 \<le> u \<and> u \<le> 102))"

definition isBinaryDigit :: "nat option \<Rightarrow> bool" where
  "isBinaryDigit c = (c = Some 48 \<or> c = Some 49)"

definition isLineBreak :: "nat option \<Rightarrow> bool" where
  "isLineBreak c = (c = Some 10 \<or> c = Some 13)"

definition isWhiteSpaceSingleLine :: "nat option \<Rightarrow> bool" where
  "isWhiteSpaceSingleLine c =
     (case c of None \<Rightarrow> False
      | Some u \<Rightarrow> u = 9 \<or> u = 11 \<or> u = 12 \<or> u = 32 \<or> u = 160 \<or> u = 5760 \<or>
          (8192 \<le> u \<and> u \<le> 8203) \<or> u = 8239 \<or> u = 8287 \<or> u = 12288 \<or> u = 65279)"

definition isIdentifierStart :: "nat option \<Rightarrow> bool" where
  "isIdentifierStart c =
     (case c of None \<Rightarrow> False
      | Some u \<Rightarrow> (65 \<le> u \<and> u \<le> 90) \<or> (97 \<le> u \<and> u \<le> 122) \<or> u = 95 \<or> u = 36)"

definition isIdentifierPart :: "nat option \<Rightarrow> bool" where
  "isIdentifierPart c = (isIdentifierStart c \<or> isDigit c)"

subsection \<open>The text and the lookahead\<close>

text \<open>
  \<open>text.charCodeAt(i)\<close>, \<open>text.codePointAt(i)\<close>, \<open>text.substr(start, length)\<close> and
  \<open>text.substring(start, end)\<close> of JavaScript.
\<close>

definition charCodeAt :: "jsstring \<Rightarrow> nat \<Rightarrow> nat option" where
  "charCodeAt t i = (if i < length t then Some (t ! i) else None)"

definition codePointAt :: "jsstring \<Rightarrow> nat \<Rightarrow> nat option" where
  "codePointAt t i =
     (if i < length t then
        (if isHighSurrogate (t ! i) \<and> i + 1 < length t \<and> isLowSurrogate (t ! (i + 1))
         then Some (65536 + (t ! i - 55296) * 1024 + (t ! (i + 1) - 56320))
         else Some (t ! i))
      else None)"

definition substr :: "jsstring \<Rightarrow> nat \<Rightarrow> nat \<Rightarrow> jsstring" where
  "substr t start n = take n (drop start t)"

definition substring :: "jsstring \<Rightarrow> nat \<Rightarrow> nat \<Rightarrow> jsstring" where
  "substring t a b = take (max a b - min a b) (drop (min a b) t)"

text \<open>
  The character \<open>advance\<close> stores for an offset:
  \<open>(size = sizeOf(codeOrChar)) === 1 ? codeOrChar : text.codePointAt(newOffset)\<close>.
\<close>

definition codeAt :: "jsstring \<Rightarrow> nat \<Rightarrow> nat option" where
  "codeAt t i = (if sizeOf (charCodeAt t i) = 1 then charCodeAt t i else codePointAt t i)"

text \<open>
  A scanner: the current token (the fields \<open>take()\<close> copies), the text and \<open>#offset\<close>,
  the offset of the next character to look at. The private fields \<open>#ch\<close>,
  \<open>#chNext\<close>, \<open>#chNextNext\<close> and their sizes are a cache of the text at
  \<open>#offset\<close>: every branch of \<open>advance\<close> leaves in them the characters at
  \<open>#offset\<close>, after it and after that one, with their sizes. They are modelled as the
  functions of the text and the offset they are kept equal to. \<open>tabWidth\<close>,
  \<open>#line\<close>, \<open>#column\<close> and \<open>#map\<close> only serve positions and are left out.
\<close>

record scanner = token +
  p_text :: jsstring
  p_offset :: nat

definition new_Scanner :: "jsstring \<Rightarrow> scanner" where
  "new_Scanner t =
     \<lparr>t_offset = None, t_kind = None, t_text = None, t_stringValue = None,
      p_text = t, p_offset = 0\<rparr>"

definition chSz :: "scanner \<Rightarrow> nat" where
  "chSz s = sizeOf (charCodeAt (p_text s) (p_offset s))"

definition ch :: "scanner \<Rightarrow> nat option" where
  "ch s = codeAt (p_text s) (p_offset s)"

definition chNextSz :: "scanner \<Rightarrow> nat" where
  "chNextSz s = sizeOf (charCodeAt (p_text s) (p_offset s + chSz s))"

definition chNext :: "scanner \<Rightarrow> nat option" where
  "chNext s = codeAt (p_text s) (p_offset s + chSz s)"

definition chNextNextSz :: "scanner \<Rightarrow> nat" where
  "chNextNextSz s = sizeOf (charCodeAt (p_text s) (p_offset s + chSz s + chNextSz s))"

definition chNextNext :: "scanner \<Rightarrow> nat option" where
  "chNextNext s = codeAt (p_text s) (p_offset s + chSz s + chNextSz s)"

text \<open>\<open>get eof() { return this.#offset > this.#length; }\<close>\<close>

definition eof :: "scanner \<Rightarrow> bool" where
  "eof s = (p_offset s > length (p_text s))"

subsection \<open>Outcomes\<close>

text \<open>
  What a call does: it returns a value, it throws an error, or it never returns.
\<close>

datatype 'a outcome = Returns 'a | Throws error | Hangs

text \<open>
  \<open>advance(count)\<close>, with the offset it advanced by. For a count other than 0, 1, 2
  and 3 the \<open>default\<close> branch runs \<open>count -= 3; while (count) { ... }\<close>, whose body
  never changes \<open>count\<close>: it does not return.
\<close>

definition advance1 :: "scanner \<Rightarrow> scanner" where
  "advance1 s = s\<lparr>p_offset := p_offset s + chSz s\<rparr>"

definition advance2 :: "scanner \<Rightarrow> scanner" where
  "advance2 s = s\<lparr>p_offset := p_offset s + (chSz s + chNextSz s)\<rparr>"

definition advance3 :: "scanner \<Rightarrow> scanner" where
  "advance3 s = s\<lparr>p_offset := p_offset s + (chSz s + chNextSz s + chNextNextSz s)\<rparr>"

definition advance :: "nat \<Rightarrow> scanner \<Rightarrow> (nat \<times> scanner) outcome" where
  "advance count s =
     (if count = 1 then Returns (chSz s, advance1 s)
      else if count = 2 then Returns (chSz s + chNextSz s, advance2 s)
      else if count = 3 then Returns (chSz s + chNextSz s + chNextNextSz s, advance3 s)
      else if count = 0 then Returns (0, s)
      else Hangs)"

text \<open>\<open>next(token, count = 1)\<close>; \<open>scan\<close> never passes a \<open>value\<close>.\<close>

definition next_token :: "nat \<Rightarrow> nat \<Rightarrow> scanner \<Rightarrow> scanner outcome" where
  "next_token tok count s =
     (case advance count s of
        Returns (offsetAdvancedBy, s') \<Rightarrow>
          Returns (s'\<lparr>t_text := Some (substr (p_text s) (p_offset s) offsetAdvancedBy),
                      t_kind := Some tok\<rparr>)
      | Throws e \<Rightarrow> Throws e
      | Hangs \<Rightarrow> Hangs)"

text \<open>\<open>newLine(count = 1)\<close>\<close>

definition newLine :: "nat \<Rightarrow> scanner \<Rightarrow> scanner outcome" where
  "newLine count s =
     (case advance count s of
        Returns (offsetAdvancedBy, s') \<Rightarrow>
          Returns (s'\<lparr>t_text := Some (substr (p_text s) (p_offset s) count), t_kind := Some 4\<rparr>)
      | Throws e \<Rightarrow> Throws e
      | Hangs \<Rightarrow> Hangs)"

text \<open>The offset of the current token, as \<open>substring\<close> reads it (\<open>undefined\<close> as 0).\<close>

definition tokenOffset :: "scanner \<Rightarrow> nat" where
  "tokenOffset s = (case t_offset s of None \<Rightarrow> 0 | Some n \<Rightarrow> n)"

subsection \<open>The loops of the scanner\<close>

lemma chSz_pos: "0 < chSz s"
  by (simp add: chSz_def sizeOf_def split: option.splits)

lemma charCodeAt_Some: "charCodeAt t i = Some u \<Longrightarrow> i < length t"
  by (simp add: charCodeAt_def split: if_splits)

lemma codeAt_Some: "codeAt t i = Some u \<Longrightarrow> i < length t"
  by (auto simp: codeAt_def charCodeAt_def codePointAt_def split: if_splits)

lemma ch_Some: "ch s = Some u \<Longrightarrow> p_offset s < length (p_text s)"
  by (auto simp: ch_def dest: codeAt_Some)

lemma isWhiteSpaceSingleLine_Some: "isWhiteSpaceSingleLine c \<Longrightarrow> \<exists>u. c = Some u"
  by (cases c) (simp_all add: isWhiteSpaceSingleLine_def)

lemma isDigit_Some: "isDigit c \<Longrightarrow> \<exists>u. c = Some u"
  by (cases c) (simp_all add: isDigit_def)

text \<open>
  The \<open>do ... while (isWhiteSpaceSingleLine(this.#ch))\<close> loop of \<open>scanWhitespace()\<close>,
  and \<open>scanWhitespace\<close>.
\<close>

function skipWhitespace :: "scanner \<Rightarrow> scanner" where
  "skipWhitespace s =
     (let s' = advance1 s
      in if isWhiteSpaceSingleLine (ch s') then skipWhitespace s' else s')"
  by pat_completeness auto
termination
proof (relation "measure (\<lambda>s. length (p_text s) - p_offset s)")
  show "wf (measure (\<lambda>s. length (p_text s) - p_offset s))" by simp
next
  fix s s' :: scanner
  assume a: "s' = advance1 s" and w: "isWhiteSpaceSingleLine (ch s')"
  from w obtain u where "ch s' = Some u" using isWhiteSpaceSingleLine_Some by blast
  then have "p_offset s' < length (p_text s')" by (rule ch_Some)
  then show "(s', s) \<in> measure (\<lambda>s. length (p_text s) - p_offset s)"
    using a chSz_pos [of s] by (simp add: advance1_def)
qed

declare skipWhitespace.simps [simp del]

definition scanWhitespace :: "scanner \<Rightarrow> scanner outcome" where
  "scanWhitespace s =
     (let s' = skipWhitespace s
      in Returns (s'\<lparr>t_text := Some (substring (p_text s') (tokenOffset s') (p_offset s')),
                    t_kind := Some 5\<rparr>))"

text \<open>The \<open>while (isDigit(this.#ch))\<close> loop of \<open>scanDigits()\<close>.\<close>

function skipDigits :: "scanner \<Rightarrow> scanner" where
  "skipDigits s = (if isDigit (ch s) then skipDigits (advance1 s) else s)"
  by pat_completeness auto
termination
proof (relation "measure (\<lambda>s. length (p_text s) - p_offset s)")
  show "wf (measure (\<lambda>s. length (p_text s) - p_offset s))" by simp
next
  fix s :: scanner
  assume w: "isDigit (ch s)"
  from w obtain u where "ch s = Some u" using isDigit_Some by blast
  then have "p_offset s < length (p_text s)" by (rule ch_Some)
  then show "(advance1 s, s) \<in> measure (\<lambda>s. length (p_text s) - p_offset s)"
    using chSz_pos [of s] by (simp add: advance1_def)
qed


declare skipDigits.simps [simp del]

text \<open>
  The \<open>do ... while\<close> loop of \<open>scanUntil(predicate, expectedClose, consumeClose)\<close>.
  The predicate of \<open>scanString\<close> is a closure over three flags it updates; the state
  of the predicate is passed along (\<open>'st\<close>).
\<close>

function scanUntil_loop :: "('st \<Rightarrow> nat option \<Rightarrow> nat option \<Rightarrow> nat option \<Rightarrow> bool \<times> 'st)
    \<Rightarrow> jsstring option \<Rightarrow> 'st \<Rightarrow> scanner \<Rightarrow> ('st \<times> scanner) outcome" where
  "scanUntil_loop predicate expectedClose st s =
     (let s1 = (if isLineBreak (ch s)
                then (if ch s = Some 13 \<and> chNext s = Some 10 then advance2 s else advance1 s)
                else advance1 s)
      in if eof s1 then
           (case expectedClose of
              Some close \<Rightarrow> if close \<noteq> [] then Throws (UnexpectedEndOfFile close) else Returns (st, s1)
            | None \<Rightarrow> Returns (st, s1))
         else (let r = predicate st (ch s1) (chNext s1) (chNextNext s1)
               in if fst r then Returns (snd r, s1)
                  else scanUntil_loop predicate expectedClose (snd r) s1))"
  by pat_completeness auto
termination
proof (relation "measure (\<lambda>(p, e, st, s). length (p_text s) + 1 - p_offset s)")
  show "wf (measure (\<lambda>(p, e, st, s). length (p_text s) + 1 - p_offset s))" by simp
next
  fix predicate :: "'st \<Rightarrow> nat option \<Rightarrow> nat option \<Rightarrow> nat option \<Rightarrow> bool \<times> 'st"
    and expectedClose st and s s1 :: scanner and r
  assume s1: "s1 = (if isLineBreak (ch s)
                then (if ch s = Some 13 \<and> chNext s = Some 10 then advance2 s else advance1 s)
                else advance1 s)"
    and ne: "\<not> eof s1"
  have "p_offset s < p_offset s1" "p_text s1 = p_text s"
    using s1 chSz_pos [of s] by (simp_all add: advance1_def advance2_def)
  then show "((predicate, expectedClose, snd r, s1), (predicate, expectedClose, st, s))
       \<in> measure (\<lambda>(p, e, st, s). length (p_text s) + 1 - p_offset s)"
    using ne by (simp add: eof_def)
qed

declare scanUntil_loop.simps [simp del]

text \<open>\<open>scanUntil\<close>: the text from the start to the offset it ends at.\<close>

definition scanUntil :: "('st \<Rightarrow> nat option \<Rightarrow> nat option \<Rightarrow> nat option \<Rightarrow> bool \<times> 'st)
    \<Rightarrow> jsstring option \<Rightarrow> nat option \<Rightarrow> 'st \<Rightarrow> scanner \<Rightarrow> (jsstring \<times> 'st \<times> scanner) outcome" where
  "scanUntil predicate expectedClose consumeClose st s =
     (case scanUntil_loop predicate expectedClose st s of
        Throws e \<Rightarrow> Throws e
      | Hangs \<Rightarrow> Hangs
      | Returns (st', s1) \<Rightarrow>
          (case (case consumeClose of None \<Rightarrow> Returns (0, s1) | Some n \<Rightarrow> advance n s1) of
             Throws e \<Rightarrow> Throws e
           | Hangs \<Rightarrow> Hangs
           | Returns (n, s2) \<Rightarrow>
               Returns (substring (p_text s) (p_offset s) (p_offset s2), st', s2)))"

text \<open>\<open>scanDigits()\<close> is \<open>skipDigits\<close> and the substring it went over.\<close>

definition number_text :: "jsstring \<Rightarrow> jsstring option \<Rightarrow> jsstring option \<Rightarrow> jsstring" where
  "number_text main decimal scientific =
     (if truthy scientific then
        (if truthy decimal then main @ [46] @ the decimal @ [101] @ the scientific
         else main @ [101] @ the scientific)
      else if truthy decimal then main @ [46] @ the decimal
      else main)"

text \<open>\<open>scanNumber()\<close>\<close>

definition scanNumber :: "scanner \<Rightarrow> scanner outcome" where
  "scanNumber s =
     (let s1 = skipDigits s;
          main = substring (p_text s) (p_offset s) (p_offset s1);
          s2 = (if ch s1 = Some 46 then skipDigits (advance1 s1) else s1);
          decimal = (if ch s1 = Some 46
                     then Some (substring (p_text s) (p_offset (advance1 s1)) (p_offset s2))
                     else None)
      in if ch s2 = Some 69 \<or> ch s2 = Some 101 then
           (if isDigit (chNext s2) then
              (let s3 = skipDigits (advance1 s2);
                   scientific = Some (substring (p_text s) (p_offset (advance1 s2)) (p_offset s3))
               in Returns (s3\<lparr>t_text := Some (number_text main decimal scientific),
                             t_kind := Some 7\<rparr>))
            else Throws DigitExpected)
         else Returns (s2\<lparr>t_text := Some (number_text main decimal None), t_kind := Some 7\<rparr>))"

text \<open>\<open>scanHexNumber()\<close> and \<open>scanBinaryNumber()\<close>\<close>

definition scanHexNumber :: "scanner \<Rightarrow> scanner outcome" where
  "scanHexNumber s =
     (if isHexDigit (chNextNext s) then
        (case scanUntil (\<lambda>st c cNext cNextNext. (\<not> isHexDigit c, st)) (Some (str ''Hex Digit''))
                None () (advance2 s) of
           Throws e \<Rightarrow> Throws e
         | Hangs \<Rightarrow> Hangs
         | Returns (t, st, s') \<Rightarrow> Returns (s'\<lparr>t_text := Some (str ''0x'' @ t), t_kind := Some 7\<rparr>))
      else Throws HexDigitExpected)"

definition scanBinaryNumber :: "scanner \<Rightarrow> scanner outcome" where
  "scanBinaryNumber s =
     (if isBinaryDigit (chNextNext s) then
        (case scanUntil (\<lambda>st c cNext cNextNext. (\<not> isBinaryDigit c, st)) (Some (str ''Binary Digit''))
                None () (advance2 s) of
           Throws e \<Rightarrow> Throws e
         | Hangs \<Rightarrow> Hangs
         | Returns (t, st, s') \<Rightarrow> Returns (s'\<lparr>t_text := Some (str ''0b'' @ t), t_kind := Some 7\<rparr>))
      else Throws BinaryDigitExpected)"

text \<open>\<open>scanSingleLineComment()\<close> and \<open>scanMultiLineComment()\<close>\<close>

definition scanSingleLineComment :: "scanner \<Rightarrow> scanner outcome" where
  "scanSingleLineComment s =
     (case scanUntil (\<lambda>st c cNext cNextNext. (isLineBreak c, st)) None None () s of
        Throws e \<Rightarrow> Throws e
      | Hangs \<Rightarrow> Hangs
      | Returns (t, st, s') \<Rightarrow> Returns (s'\<lparr>t_text := Some t, t_kind := Some 2\<rparr>))"

definition scanMultiLineComment :: "scanner \<Rightarrow> scanner outcome" where
  "scanMultiLineComment s =
     (case scanUntil (\<lambda>st c cNext cNextNext. (c = Some 42 \<and> cNext = Some 47, st))
             (Some (str ''*/'')) (Some 2) () s of
        Throws e \<Rightarrow> Throws e
      | Hangs \<Rightarrow> Hangs
      | Returns (t, st, s') \<Rightarrow> Returns (s'\<lparr>t_text := Some t, t_kind := Some 3\<rparr>))"

text \<open>
  \<open>unescapeString(text)\<close>; a backslash at the very end reads \<open>NaN\<close> for the escaped
  character and throws like any other unknown escape.
\<close>

fun unescapeString :: "jsstring \<Rightarrow> jsstring outcome" where
  "unescapeString [] = Returns []"
| "unescapeString [c] = (if c \<noteq> 92 then Returns [c] else Throws InvalidEscapeSequence)"
| "unescapeString (c # e # r) =
     (if c \<noteq> 92 then
        (case unescapeString (e # r) of
           Returns t \<Rightarrow> Returns (c # t) | Throws x \<Rightarrow> Throws x | Hangs \<Rightarrow> Hangs)
      else
        (let esc = (if e = 114 then Some 13 else if e = 110 then Some 10 else if e = 116 then Some 9
                    else if e = 39 then Some 39 else if e = 34 then Some 34
                    else if e = 92 then Some 92 else if e = 96 then Some 96 else None)
         in case esc of
              None \<Rightarrow> Throws InvalidEscapeSequence
            | Some x \<Rightarrow>
                (case unescapeString r of
                   Returns t \<Rightarrow> Returns (x # t) | Throws y \<Rightarrow> Throws y | Hangs \<Rightarrow> Hangs)))"

text \<open>\<open>value.replace(/\r\n/g, '\n')\<close>\<close>

fun replace_crlf :: "jsstring \<Rightarrow> jsstring" where
  "replace_crlf (c # d # r) = (if c = 13 \<and> d = 10 then 10 # replace_crlf r else c # replace_crlf (d # r))"
| "replace_crlf t = t"

text \<open>
  The predicate of \<open>scanString\<close>, on the flags \<open>isEscaping\<close>, \<open>escaped\<close> and
  \<open>crlf\<close>.
\<close>

definition string_predicate :: "nat option \<Rightarrow> bool \<times> bool \<times> bool \<Rightarrow> nat option \<Rightarrow> nat option
    \<Rightarrow> nat option \<Rightarrow> bool \<times> (bool \<times> bool \<times> bool)" where
  "string_predicate quote st c cNext cNextNext =
     (let isEscaping = fst st; escaped = fst (snd st); crlf = snd (snd st)
      in if isEscaping then (False, (False, escaped, crlf))
         else if c = Some 92 then (False, (True, True, crlf))
         else if c = Some 13 then (False, (isEscaping, escaped, crlf \<or> cNext = Some 10))
         else (c \<noteq> None \<and> c = quote, (isEscaping, escaped, crlf)))"

text \<open>\<open>scanString()\<close>; the quote is one code unit, so \<open>closing\<close> is that code unit.\<close>

definition scanString :: "scanner \<Rightarrow> scanner outcome" where
  "scanString s =
     (let quote = ch s;
          closing = (case quote of None \<Rightarrow> [] | Some q \<Rightarrow> [q])
      in case scanUntil (string_predicate quote) (Some closing) (Some 1) (False, False, False) s of
           Throws e \<Rightarrow> Throws e
         | Hangs \<Rightarrow> Hangs
         | Returns (t, st, s') \<Rightarrow>
             (let v0 = substring t 1 (length t - 1);
                  v1 = (if snd (snd st) then replace_crlf v0 else v0)
              in case (if fst (snd st) then unescapeString v1 else Returns v1) of
                   Throws e \<Rightarrow> Throws e
                 | Hangs \<Rightarrow> Hangs
                 | Returns v \<Rightarrow>
                     Returns (s'\<lparr>t_text := Some t, t_stringValue := Some v, t_kind := Some 8\<rparr>)))"

text \<open>The map \<open>keywords\<close> and \<open>scanIdentifier()\<close>.\<close>

definition keywords_map :: "jsstring \<Rightarrow> nat option" where
  "keywords_map t =
     (if t = str ''NOT'' \<or> t = str ''not'' then Some 1002
      else if t = str ''AND'' \<or> t = str ''and'' then Some 1001
      else if t = str ''true'' \<or> t = str ''false'' then Some 9
      else None)"

definition scanIdentifier :: "scanner \<Rightarrow> scanner outcome" where
  "scanIdentifier s =
     (case scanUntil (\<lambda>st c cNext cNextNext. (\<not> isIdentifierPart c, st)) None None () s of
        Throws e \<Rightarrow> Throws e
      | Hangs \<Rightarrow> Hangs
      | Returns (t, st, s') \<Rightarrow>
          Returns (s'\<lparr>t_text := Some t,
                      t_kind := Some (case keywords_map t of None \<Rightarrow> 71 | Some k \<Rightarrow> k)\<rparr>))"

text \<open>\<open>isConflictMarker()\<close>, with \<open>mergeConflictMarkerLength = 7\<close>.\<close>

definition isConflictMarker :: "scanner \<Rightarrow> bool" where
  "isConflictMarker s =
     (if p_offset s = 0 \<or> isLineBreak (charCodeAt (p_text s) (p_offset s - 1)) then
        (if p_offset s + 7 < length (p_text s) then
           (if list_ex (\<lambda>i. charCodeAt (p_text s) (p_offset s + i) = None \<or>
                             charCodeAt (p_text s) (p_offset s + i) \<noteq> ch s) [0, 1, 2, 3, 4, 5, 6]
            then False
            else ch s = Some 61 \<or> charCodeAt (p_text s) (p_offset s + 7) = Some 32)
         else False)
      else False)"


text \<open>
  The characters for which \<open>scan\<close> calls \<open>scanWhitespace\<close> (the \<open>case\<close> labels
  from \<open>tab\<close> to \<open>byteOrderMark\<close>).
\<close>

definition whitespaceCase :: "nat option \<Rightarrow> bool" where
  "whitespaceCase c =
     (case c of None \<Rightarrow> False
      | Some u \<Rightarrow> u \<in> set [9, 11, 12, 32, 160, 5760, 8192, 8193, 8194, 8195, 8196, 8197, 8198,
                            8199, 8200, 8201, 8202, 8203, 8239, 8287, 12288, 65279])"

text \<open>
  \<open>scan()\<close>. The \<open>switch\<close> compares \<open>#ch\<close> with each label by \<open>===\<close>, so
  \<open>NaN\<close> goes to \<open>default\<close>. The kinds are written by their numbers; those the
  parser looks at are \<open>EndOfFile\<close> 1, \<open>Whitespace\<close> 5, \<open>NumericLiteral\<close> 7,
  \<open>StringLiteral\<close> 8, \<open>BooleanLiteral\<close> 9, \<open>OpenParen\<close> 14, \<open>CloseParen\<close> 15,
  \<open>Comma\<close> 21, \<open>Colon\<close> 52, \<open>Identifier\<close> 71, \<open>AndKeyword\<close> 1001 and
  \<open>NotKeyword\<close> 1002.
\<close>

definition scan :: "scanner \<Rightarrow> scanner outcome" where
  "scan s0 =
     (let s = s0\<lparr>t_offset := Some (p_offset s0), t_stringValue := None\<rparr>;
          c = ch s; n = chNext s; nn = chNextNext s
      in if \<not> eof s then
           (if c = Some 13 then newLine (if n = Some 10 then 2 else 1) s
            else if c = Some 10 then newLine 1 s
            else if whitespaceCase c then scanWhitespace s
            else if c = Some 40 then next_token 14 1 s
            else if c = Some 41 then next_token 15 1 s
            else if c = Some 44 then next_token 21 1 s
            else if c = Some 58 then next_token 52 1 s
            else if c = Some 59 then next_token 20 1 s
            else if c = Some 91 then next_token 16 1 s
            else if c = Some 93 then next_token 17 1 s
            else if c = Some 123 then next_token 12 1 s
            else if c = Some 125 then next_token 13 1 s
            else if c = Some 126 then next_token 48 1 s
            else if c = Some 64 then next_token 53 1 s
            else if c = Some 94 then
              (if n = Some 61 then next_token 70 2 s else next_token 46 1 s)
            else if c = Some 37 then
              (if n = Some 61 then next_token 61 2 s else next_token 38 1 s)
            else if c = Some 63 then
              (if n = Some 46 \<and> \<not> isDigit nn then next_token 22 2 s
               else if n = Some 63 then
                 (if nn = Some 61 then next_token 69 3 s else next_token 54 2 s)
               else next_token 51 1 s)
            else if c = Some 33 then
              (if n = Some 61 then
                 (if nn = Some 61 then next_token 31 3 s else next_token 29 2 s)
               else next_token 47 1 s)
            else if c = Some 38 then
              (if n = Some 38 then
                 (if nn = Some 61 then next_token 68 3 s else next_token 49 2 s)
               else if n = Some 61 then next_token 65 2 s
               else next_token 44 1 s)
            else if c = Some 42 then
              (if n = Some 42 then
                 (if nn = Some 61 then next_token 59 3 s else next_token 36 2 s)
               else if n = Some 61 then next_token 58 2 s
               else next_token 35 1 s)
            else if c = Some 43 then
              (if n = Some 43 then next_token 39 2 s
               else if n = Some 61 then next_token 56 2 s
               else next_token 33 1 s)
            else if c = Some 45 then
              (if n = Some 45 then next_token 40 2 s
               else if n = Some 61 then next_token 57 2 s
               else next_token 34 1 s)
            else if c = Some 46 then
              (if isDigit n then scanNumber s
               else if n = Some 46 \<and> nn = Some 46 then next_token 19 3 s
               else next_token 18 1 s)
            else if c = Some 47 then
              (if n = Some 47 then scanSingleLineComment s
               else if n = Some 42 then scanMultiLineComment s
               else if n = Some 61 then next_token 60 1 s
               else next_token 37 1 s)
            else if c = Some 48 then
              (if n = Some 120 \<or> n = Some 88 then scanHexNumber s
               else if n = Some 66 \<or> n = Some 66 then scanBinaryNumber s
               else scanNumber s)
            else if c = Some 49 \<or> c = Some 50 \<or> c = Some 51 \<or> c = Some 52 \<or> c = Some 53 \<or>
                    c = Some 54 \<or> c = Some 55 \<or> c = Some 56 \<or> c = Some 57 then scanNumber s
            else if c = Some 60 then
              (if isConflictMarker s then next_token 6 7 s
               else if n = Some 60 then
                 (if nn = Some 61 then next_token 62 3 s else next_token 41 2 s)
               else if n = Some 61 then next_token 26 2 s
               else next_token 23 1 s)
            else if c = Some 62 then
              (if isConflictMarker s then next_token 6 7 s else next_token 25 1 s)
            else if c = Some 61 then
              (if isConflictMarker s then next_token 6 7 s
               else if n = Some 61 then
                 (if nn = Some 61 then next_token 30 3 s else next_token 28 2 s)
               else if n = Some 62 then next_token 32 2 s
               else next_token 55 1 s)
            else if c = Some 124 then
              (if isConflictMarker s then next_token 6 7 s
               else if n = Some 124 then
                 (if nn = Some 61 then next_token 67 3 s else next_token 50 2 s)
               else if n = Some 61 then next_token 66 2 s
               else next_token 45 1 s)
            else if c = Some 39 \<or> c = Some 34 \<or> c = Some 96 then scanString s
            else if isIdentifierStart c then scanIdentifier s
            else next_token 0 1 s)
         else Returns (s\<lparr>t_text := Some [], t_kind := Some 1\<rparr>))"

text \<open>\<open>take()\<close>: the current token, and the scanner after the next \<open>scan()\<close>.\<close>

definition take_token :: "scanner \<Rightarrow> (token \<times> scanner) outcome" where
  "take_token s =
     (case scan s of
        Throws e \<Rightarrow> Throws e
      | Hangs \<Rightarrow> Hangs
      | Returns s' \<Rightarrow> Returns (token.truncate s, s'))"

subsection \<open>Every scan moves on\<close>

text \<open>
  A scanner \<open>s'\<close> \<open>progresses\<close> from \<open>s\<close> when it reads the same text at a
  greater offset, and \<open>follows\<close> it when the offset is not smaller. Every scanning
  function that returns has moved on; the parser's loops end for this reason.
\<close>

definition progresses :: "scanner \<Rightarrow> scanner \<Rightarrow> bool" where
  "progresses s s' = (p_text s' = p_text s \<and> p_offset s < p_offset s')"

definition follows :: "scanner \<Rightarrow> scanner \<Rightarrow> bool" where
  "follows s s' = (p_text s' = p_text s \<and> p_offset s \<le> p_offset s')"

lemma progresses_follows: "progresses s s' \<Longrightarrow> follows s s'"
  by (simp add: progresses_def follows_def)

lemma progresses_trans1: "progresses s s' \<Longrightarrow> follows s' s'' \<Longrightarrow> progresses s s''"
  by (simp add: progresses_def follows_def)

lemma progresses_trans2: "follows s s' \<Longrightarrow> progresses s' s'' \<Longrightarrow> progresses s s''"
  by (simp add: progresses_def follows_def)

lemma follows_trans: "follows s s' \<Longrightarrow> follows s' s'' \<Longrightarrow> follows s s''"
  by (simp add: progresses_def follows_def)

lemma follows_refl [simp]: "follows s s"
  by (simp add: follows_def)

lemma progresses_token_update [simp]:
  "progresses s (s'\<lparr>t_text := a\<rparr>) = progresses s s'"
  "progresses s (s'\<lparr>t_kind := b\<rparr>) = progresses s s'"
  "progresses s (s'\<lparr>t_stringValue := c\<rparr>) = progresses s s'"
  "progresses s (s'\<lparr>t_offset := d\<rparr>) = progresses s s'"
  "progresses (s\<lparr>t_text := a\<rparr>) s' = progresses s s'"
  "progresses (s\<lparr>t_kind := b\<rparr>) s' = progresses s s'"
  "progresses (s\<lparr>t_stringValue := c\<rparr>) s' = progresses s s'"
  "progresses (s\<lparr>t_offset := d\<rparr>) s' = progresses s s'"
  by (simp_all add: progresses_def)

lemma progresses_advance1 [simp]: "progresses s (advance1 s)"
  using chSz_pos [of s] by (simp add: progresses_def advance1_def)

lemma progresses_advance2 [simp]: "progresses s (advance2 s)"
  using chSz_pos [of s] by (simp add: progresses_def advance2_def)

lemma progresses_advance:
  "advance n s = Returns (k, s') \<Longrightarrow> n \<noteq> 0 \<Longrightarrow> progresses s s'"
  using chSz_pos [of s]
  by (auto simp: advance_def progresses_def advance1_def advance2_def advance3_def split: if_splits)

lemma follows_advance:
  "advance n s = Returns (k, s') \<Longrightarrow> follows s s'"
  using chSz_pos [of s]
  by (auto simp: advance_def follows_def advance1_def advance2_def advance3_def split: if_splits)

lemma progresses_next_token:
  "next_token tok n s = Returns s' \<Longrightarrow> n \<noteq> 0 \<Longrightarrow> progresses s s'"
  by (auto simp: next_token_def split: outcome.splits dest: progresses_advance)

lemma progresses_newLine:
  "newLine n s = Returns s' \<Longrightarrow> n \<noteq> 0 \<Longrightarrow> progresses s s'"
  by (auto simp: newLine_def split: outcome.splits dest: progresses_advance)

lemma progresses_skipWhitespace: "progresses s (skipWhitespace s)"
proof (induction s rule: skipWhitespace.induct)
  case (1 s)
  show ?case
  proof (cases "isWhiteSpaceSingleLine (ch (advance1 s))")
    case True
    then have "progresses (advance1 s) (skipWhitespace (advance1 s))"
      using "1.IH" by simp
    then have "progresses s (skipWhitespace (advance1 s))"
      using progresses_advance1 [of s] by (simp add: progresses_def)
    then show ?thesis using True by (subst skipWhitespace.simps) (simp add: Let_def)
  next
    case False
    then show ?thesis by (subst skipWhitespace.simps) (simp add: Let_def)
  qed
qed

lemma progresses_scanWhitespace: "scanWhitespace s = Returns s' \<Longrightarrow> progresses s s'"
  using progresses_skipWhitespace [of s] by (auto simp: scanWhitespace_def Let_def)

lemma follows_skipDigits: "follows s (skipDigits s)"
proof (induction s rule: skipDigits.induct)
  case (1 s)
  show ?case
  proof (cases "isDigit (ch s)")
    case True
    then have "follows (advance1 s) (skipDigits (advance1 s))" using "1.IH" by simp
    then have "follows s (skipDigits (advance1 s))"
      using progresses_advance1 [of s] by (simp add: progresses_def follows_def)
    then show ?thesis using True by (subst skipDigits.simps) simp
  next
    case False
    then show ?thesis by (subst skipDigits.simps) simp
  qed
qed

lemma progresses_skipDigits: "isDigit (ch s) \<Longrightarrow> progresses s (skipDigits s)"
  using follows_skipDigits [of "advance1 s"] progresses_advance1 [of s]
  by (subst skipDigits.simps) (simp add: progresses_def follows_def)

lemma progresses_scanNumber:
  assumes "scanNumber s = Returns s'" "isDigit (ch s) \<or> ch s = Some 46"
  shows "progresses s s'"
proof -
  let ?s1 = "skipDigits s"
  let ?s2 = "if ch ?s1 = Some 46 then skipDigits (advance1 ?s1) else ?s1"
  have f1: "follows s ?s1" by (rule follows_skipDigits)
  have p2: "progresses s ?s2"
  proof (cases "isDigit (ch s)")
    case True
    then have "progresses s ?s1" by (rule progresses_skipDigits)
    moreover have "follows ?s1 ?s2"
      using follows_skipDigits [of "advance1 ?s1"] progresses_advance1 [of ?s1]
      by (simp add: progresses_def follows_def)
    ultimately show ?thesis by (rule progresses_trans1)
  next
    case False
    then have d: "ch s = Some 46" using assms(2) by simp
    have "?s1 = s" using False by (subst skipDigits.simps) simp
    then show ?thesis
      using d follows_skipDigits [of "advance1 s"] progresses_advance1 [of s]
      by (simp add: progresses_def follows_def)
  qed
  have p3: "progresses s (skipDigits (advance1 ?s2))"
    using p2 follows_skipDigits [of "advance1 ?s2"] progresses_advance1 [of ?s2]
    by (simp add: progresses_def follows_def)
  show ?thesis
    using assms(1) p2 p3 by (auto simp: scanNumber_def Let_def split: if_splits)
qed

lemma progresses_scanUntil_loop:
  "scanUntil_loop predicate expectedClose st s = Returns (st', s') \<Longrightarrow> progresses s s'"
proof (induction predicate expectedClose st s rule: scanUntil_loop.induct)
  case (1 predicate expectedClose st s)
  let ?s1 = "if isLineBreak (ch s)
                then (if ch s = Some 13 \<and> chNext s = Some 10 then advance2 s else advance1 s)
                else advance1 s"
  have p1: "progresses s ?s1" by simp
  show ?case
  proof (cases "eof ?s1")
    case True
    then have "s' = ?s1"
      using "1.prems" by (subst (asm) scanUntil_loop.simps) (auto simp: Let_def split: option.splits if_splits)
    then show ?thesis using p1 by simp
  next
    case False
    let ?r = "predicate st (ch ?s1) (chNext ?s1) (chNextNext ?s1)"
    show ?thesis
    proof (cases "fst ?r")
      case True
      then have "s' = ?s1"
        using "1.prems" False by (subst (asm) scanUntil_loop.simps) (simp add: Let_def)
      then show ?thesis using p1 by simp
    next
      case f: False
      have "scanUntil_loop predicate expectedClose (snd ?r) ?s1 = Returns (st', s')"
        using "1.prems" False f by (subst (asm) scanUntil_loop.simps) (simp add: Let_def)
      then have "progresses ?s1 s'"
        using "1.IH" [OF refl False refl f] by simp
      then show ?thesis using p1 by (simp add: progresses_def)
    qed
  qed
qed

lemma progresses_scanUntil:
  "scanUntil predicate expectedClose consumeClose st s = Returns (t, st', s') \<Longrightarrow> progresses s s'"
  by (auto simp: scanUntil_def split: outcome.splits option.splits
      dest!: progresses_scanUntil_loop follows_advance simp: progresses_def follows_def)

lemma progresses_scanHexNumber: "scanHexNumber s = Returns s' \<Longrightarrow> progresses s s'"
  using progresses_advance2 [of s]
  by (auto simp: scanHexNumber_def split: if_splits outcome.splits
      dest!: progresses_scanUntil simp: progresses_def)

lemma progresses_scanBinaryNumber: "scanBinaryNumber s = Returns s' \<Longrightarrow> progresses s s'"
  using progresses_advance2 [of s]
  by (auto simp: scanBinaryNumber_def split: if_splits outcome.splits
      dest!: progresses_scanUntil simp: progresses_def)

lemma progresses_scanSingleLineComment: "scanSingleLineComment s = Returns s' \<Longrightarrow> progresses s s'"
  by (auto simp: scanSingleLineComment_def split: outcome.splits dest!: progresses_scanUntil)

lemma progresses_scanMultiLineComment: "scanMultiLineComment s = Returns s' \<Longrightarrow> progresses s s'"
  by (auto simp: scanMultiLineComment_def split: outcome.splits dest!: progresses_scanUntil)

lemma progresses_scanString: "scanString s = Returns s' \<Longrightarrow> progresses s s'"
  by (auto simp: scanString_def Let_def split: outcome.splits if_splits dest!: progresses_scanUntil)

lemma progresses_scanIdentifier: "scanIdentifier s = Returns s' \<Longrightarrow> progresses s s'"
  by (auto simp: scanIdentifier_def split: outcome.splits dest!: progresses_scanUntil)

lemma eof_token_update [simp]:
  "eof (s\<lparr>t_text := a\<rparr>) = eof s"
  "eof (s\<lparr>t_kind := b\<rparr>) = eof s"
  "eof (s\<lparr>t_stringValue := c\<rparr>) = eof s"
  "eof (s\<lparr>t_offset := d\<rparr>) = eof s"
  by (simp_all add: eof_def)

lemma scan_eof:
  "eof s \<Longrightarrow> scan s = Returns (s\<lparr>t_offset := Some (p_offset s), t_stringValue := None,
      t_text := Some [], t_kind := Some 1\<rparr>)"
  by (simp add: scan_def Let_def)

lemmas progresses_scanners =
  progresses_newLine progresses_scanWhitespace progresses_next_token progresses_scanNumber
  progresses_scanHexNumber progresses_scanBinaryNumber progresses_scanSingleLineComment
  progresses_scanMultiLineComment progresses_scanString progresses_scanIdentifier

lemma scan_progresses:
  assumes "scan s = Returns s'" "\<not> eof s"
  shows "progresses s s'"
proof -
  define s1 where "s1 = s\<lparr>t_offset := Some (p_offset s), t_stringValue := None\<rparr>"
  have e: "\<not> eof s1" using assms(2) by (simp add: s1_def)
  have p: "progresses s1 s' \<Longrightarrow> progresses s s'" by (simp add: s1_def)
  have d: "isDigit (Some u)" if "48 \<le> u" "u \<le> 57" for u using that by (simp add: isDigit_def)
  have "progresses s1 s'"
    using assms(1) e unfolding scan_def s1_def [symmetric]
    by (auto simp: Let_def d split: if_splits dest: progresses_scanners)
  then show ?thesis by (rule p)
qed

section \<open>The parser (media-query.js)\<close>

text \<open>
  How far a scanner is from the end of its work: twice the characters left (and one
  more, for the token past the end), and one more while its current token is not
  \<open>EndOfFile\<close>. Every \<open>scan\<close> on a token other than \<open>EndOfFile\<close> lowers it.
\<close>

definition remaining :: "scanner \<Rightarrow> nat" where
  "remaining s =
     2 * (length (p_text s) + 1 - p_offset s) + (if t_kind s = Some 1 then 0 else 1)"

lemma scan_remaining:
  assumes "scan s = Returns s'" "t_kind s \<noteq> Some 1"
  shows "remaining s' < remaining s"
proof (cases "eof s")
  case True
  then show ?thesis using assms by (auto simp: scan_eof remaining_def)
next
  case False
  then have "progresses s s'" using assms(1) by (simp add: scan_progresses)
  then show ?thesis using False assms(2) by (auto simp: remaining_def progresses_def eof_def)
qed

text \<open>\<open>function takeWhitespace(cursor)\<close>\<close>

function takeWhitespace :: "scanner \<Rightarrow> scanner outcome" where
  "takeWhitespace cursor =
     (if \<not> eof cursor \<and> t_kind cursor = Some 5 then
        (case take_token cursor of
           Throws e \<Rightarrow> Throws e
         | Hangs \<Rightarrow> Hangs
         | Returns (t, cursor') \<Rightarrow> takeWhitespace cursor')
      else Returns cursor)"
  by pat_completeness auto
termination
proof (relation "measure remaining")
  show "wf (measure remaining)" by simp
next
  fix cursor :: scanner and x and t cursor'
  assume "\<not> eof cursor \<and> t_kind cursor = Some 5" "take_token cursor = Returns x" "(t, cursor') = x"
  then have "scan cursor = Returns cursor'" "t_kind cursor \<noteq> Some 1"
    by (auto simp: take_token_def split: outcome.splits)
  then show "(cursor', cursor) \<in> measure remaining"
    using scan_remaining by simp
qed

declare takeWhitespace.simps [simp del]


lemma takeWhitespace_remaining:
  "takeWhitespace s = Returns s' \<Longrightarrow> remaining s' \<le> remaining s"
proof (induction s rule: takeWhitespace.induct)
  case (1 cursor)
  show ?case
  proof (cases "\<not> eof cursor \<and> t_kind cursor = Some 5")
    case True
    then obtain t c' where t: "take_token cursor = Returns (t, c')" "takeWhitespace c' = Returns s'"
      using "1.prems" by (subst (asm) takeWhitespace.simps) (auto split: outcome.splits)
    then have "scan cursor = Returns c'" by (auto simp: take_token_def split: outcome.splits)
    then have "remaining c' < remaining cursor" using True by (auto intro: scan_remaining)
    moreover have "remaining s' \<le> remaining c'" using "1.IH" [OF True t(1) refl t(2)] .
    ultimately show ?thesis by simp
  next
    case False
    then show ?thesis using "1.prems" by (subst (asm) takeWhitespace.simps) auto
  qed
qed

lemma take_token_remaining:
  "take_token s = Returns (t, s') \<Longrightarrow> t_kind s \<noteq> Some 1 \<Longrightarrow> remaining s' < remaining s"
  by (auto simp: take_token_def split: outcome.splits intro: scan_remaining)

text \<open>
  \<open>Expression.parse(cursor, isNotted, inParen)\<close>; \<open>inParen\<close> is only passed on.
\<close>

function Expression_parse :: "scanner \<Rightarrow> bool \<Rightarrow> (expression \<times> scanner) outcome" where
  "Expression_parse cursor isNotted =
     (case takeWhitespace cursor of
        Throws e \<Rightarrow> Throws e
      | Hangs \<Rightarrow> Hangs
      | Returns c1 \<Rightarrow>
          if t_kind c1 = Some 71 then
            (case take_token c1 of
               Throws e \<Rightarrow> Throws e
             | Hangs \<Rightarrow> Hangs
             | Returns (featureTok, c2) \<Rightarrow>
                 (case takeWhitespace c2 of
                    Throws e \<Rightarrow> Throws e
                  | Hangs \<Rightarrow> Hangs
                  | Returns c3 \<Rightarrow>
                      if t_kind c3 = Some 52 then
                        (case take_token c3 of
                           Throws e \<Rightarrow> Throws e
                         | Hangs \<Rightarrow> Hangs
                         | Returns (colon, c4) \<Rightarrow>
                             (case takeWhitespace c4 of
                                Throws e \<Rightarrow> Throws e
                              | Hangs \<Rightarrow> Hangs
                              | Returns c5 \<Rightarrow>
                                  if t_kind c5 = Some 7 \<or> t_kind c5 = Some 9 \<or>
                                     t_kind c5 = Some 71 \<or> t_kind c5 = Some 8 then
                                    (case take_token c5 of
                                       Throws e \<Rightarrow> Throws e
                                     | Hangs \<Rightarrow> Hangs
                                     | Returns (constantTok, c6) \<Rightarrow>
                                         Returns (\<lparr>featureToken = featureTok,
                                                   constantToken = Some constantTok,
                                                   notted = isNotted\<rparr>, c6))
                                  else Throws (ExpectedConstant (t_text c5))))
                      else Returns (\<lparr>featureToken = featureTok, constantToken = None,
                                      notted = isNotted\<rparr>, c3)))
          else if t_kind c1 = Some 1002 then
            (if isNotted then Throws NotTwice
             else (case take_token c1 of
                     Throws e \<Rightarrow> Throws e
                   | Hangs \<Rightarrow> Hangs
                   | Returns (t, c2) \<Rightarrow> Expression_parse c2 True))
          else if t_kind c1 = Some 14 then
            (case take_token c1 of
               Throws e \<Rightarrow> Throws e
             | Hangs \<Rightarrow> Hangs
             | Returns (t, c2) \<Rightarrow>
                 (case Expression_parse c2 isNotted of
                    Throws e \<Rightarrow> Throws e
                  | Hangs \<Rightarrow> Hangs
                  | Returns (result, c3) \<Rightarrow>
                      (case takeWhitespace c3 of
                         Throws e \<Rightarrow> Throws e
                       | Hangs \<Rightarrow> Hangs
                       | Returns c4 \<Rightarrow>
                           if t_kind c4 \<noteq> Some 15 then Throws (ExpectedCloseParen (t_text c4))
                           else (case take_token c4 of
                                   Throws e \<Rightarrow> Throws e
                                 | Hangs \<Rightarrow> Hangs
                                 | Returns (t', c5) \<Rightarrow> Returns (result, c5)))))
          else Throws (ExpectedExpression (t_text c1)))"
  by pat_completeness auto
termination
proof (relation "measure (\<lambda>(cursor, isNotted). remaining cursor)")
  show "wf (measure (\<lambda>(cursor, isNotted). remaining cursor))" by simp
next
  fix cursor :: scanner and isNotted :: bool and c1 x t c2
  assume "takeWhitespace cursor = Returns c1" "t_kind c1 = Some 1002"
    "take_token c1 = Returns x" "(t, c2) = x"
  then have "remaining c1 \<le> remaining cursor" "remaining c2 < remaining c1"
    using takeWhitespace_remaining take_token_remaining [of c1 t c2] by auto
  then show "((c2, True), (cursor, isNotted)) \<in> measure (\<lambda>(cursor, isNotted). remaining cursor)"
    by simp
next
  fix cursor :: scanner and isNotted :: bool and c1 x t c2
  assume "takeWhitespace cursor = Returns c1" "t_kind c1 = Some 14"
    "take_token c1 = Returns x" "(t, c2) = x"
  then have "remaining c1 \<le> remaining cursor" "remaining c2 < remaining c1"
    using takeWhitespace_remaining take_token_remaining [of c1 t c2] by auto
  then show "((c2, isNotted), (cursor, isNotted)) \<in> measure (\<lambda>(cursor, isNotted). remaining cursor)"
    by simp
qed

declare Expression_parse.simps [simp del]

lemma take_token_remaining_le:
  "take_token s = Returns (t, s') \<Longrightarrow> t_kind s \<noteq> Some 1 \<Longrightarrow> remaining s' \<le> remaining s"
  using take_token_remaining [of s t s'] by simp

lemma Expression_parse_remaining:
  "Expression_parse cursor isNotted = Returns (e, c') \<Longrightarrow> remaining c' \<le> remaining cursor"
proof (induction cursor isNotted arbitrary: e c' rule: Expression_parse.induct)
  case (1 cursor isNotted)
  note prem = "1.prems" [unfolded Expression_parse.simps [of cursor isNotted]]
  from prem obtain c1 where c1: "takeWhitespace cursor = Returns c1"
    by (auto split: outcome.splits)
  have r1: "remaining c1 \<le> remaining cursor" using c1 by (rule takeWhitespace_remaining)
  consider (ident) "t_kind c1 = Some 71" | (not) "t_kind c1 = Some 1002"
    | (paren) "t_kind c1 = Some 14" | (other) "t_kind c1 \<noteq> Some 71" "t_kind c1 \<noteq> Some 1002" "t_kind c1 \<noteq> Some 14"
    by blast
  then show ?case
  proof cases
    case ident
    from prem c1 ident obtain f c2 c3 where
      s: "take_token c1 = Returns (f, c2)" "takeWhitespace c2 = Returns c3"
      by (auto split: outcome.splits)
    have r3: "remaining c3 \<le> remaining c1"
      using take_token_remaining_le [OF s(1)] takeWhitespace_remaining [OF s(2)] ident by simp
    show ?thesis
    proof (cases "t_kind c3 = Some 52")
      case True
      from prem c1 ident s True obtain t4 c4 c5 t6 where
        u: "take_token c3 = Returns (t4, c4)" "takeWhitespace c4 = Returns c5"
           "t_kind c5 = Some 7 \<or> t_kind c5 = Some 9 \<or> t_kind c5 = Some 71 \<or> t_kind c5 = Some 8"
           "take_token c5 = Returns (t6, c')"
        by (auto split: outcome.splits if_splits)
      have "remaining c4 \<le> remaining c3" using take_token_remaining_le [OF u(1)] True by simp
      moreover have "remaining c5 \<le> remaining c4" using u(2) by (rule takeWhitespace_remaining)
      moreover have "remaining c' \<le> remaining c5"
        using take_token_remaining_le [OF u(4)] u(3) by auto
      ultimately show ?thesis using r1 r3 by simp
    next
      case False
      then have "c' = c3" using prem c1 ident s by (auto split: outcome.splits)
      then show ?thesis using r1 r3 by simp
    qed
  next
    case not
    from prem c1 not obtain t c2 where
      s: "\<not> isNotted" "take_token c1 = Returns (t, c2)" "Expression_parse c2 True = Returns (e, c')"
      by (auto split: outcome.splits if_splits)
    have "remaining c2 \<le> remaining c1" using take_token_remaining_le [OF s(2)] not by simp
    moreover have "remaining c' \<le> remaining c2"
      using "1.IH"(1) [OF c1 _ not s(1) s(2) refl s(3)] not by simp
    ultimately show ?thesis using r1 by simp
  next
    case paren
    from prem c1 paren obtain t c2 c3 c4 t5 where
      s: "take_token c1 = Returns (t, c2)" "Expression_parse c2 isNotted = Returns (e, c3)"
         "takeWhitespace c3 = Returns c4" "t_kind c4 = Some 15" "take_token c4 = Returns (t5, c')"
      by (auto split: outcome.splits if_splits)
    have "remaining c2 \<le> remaining c1" using take_token_remaining_le [OF s(1)] paren by simp
    moreover have "remaining c3 \<le> remaining c2"
      using "1.IH"(2) [OF c1 _ _ paren s(1) refl s(2)] paren by simp
    moreover have "remaining c4 \<le> remaining c3" using s(3) by (rule takeWhitespace_remaining)
    moreover have "remaining c' \<le> remaining c4" using take_token_remaining_le [OF s(5)] s(4) by simp
    ultimately show ?thesis using r1 by simp
  next
    case other
    then show ?thesis using prem c1 by (auto split: outcome.splits)
  qed
qed

text \<open>The \<open>while (true)\<close> loop of \<open>Query.parse(cursor)\<close>, and \<open>Query.parse\<close>.\<close>

function Query_loop :: "scanner \<Rightarrow> expression list \<Rightarrow> (query \<times> scanner) outcome" where
  "Query_loop cursor result =
     (case Expression_parse cursor False of
        Throws e \<Rightarrow> Throws e
      | Hangs \<Rightarrow> Hangs
      | Returns (expr, c1) \<Rightarrow>
          (case takeWhitespace c1 of
             Throws e \<Rightarrow> Throws e
           | Hangs \<Rightarrow> Hangs
           | Returns c2 \<Rightarrow>
               if t_kind c2 = Some 1001 then
                 (case take_token c2 of
                    Throws e \<Rightarrow> Throws e
                  | Hangs \<Rightarrow> Hangs
                  | Returns (t, c3) \<Rightarrow> Query_loop c3 (result @ [expr]))
               else Returns (\<lparr>expressions = result @ [expr]\<rparr>, c2)))"
  by pat_completeness auto
termination
proof (relation "measure (\<lambda>(cursor, result). remaining cursor)")
  show "wf (measure (\<lambda>(cursor, result). remaining cursor))" by simp
next
  fix cursor :: scanner and result :: "expression list" and x expr c1 c2 y t c3
  assume "Expression_parse cursor False = Returns x" "(expr, c1) = x"
    "takeWhitespace c1 = Returns c2" "t_kind c2 = Some 1001"
    "take_token c2 = Returns y" "(t, c3) = y"
  then have "remaining c1 \<le> remaining cursor" "remaining c2 \<le> remaining c1"
    "remaining c3 < remaining c2"
    using Expression_parse_remaining [of cursor False expr c1] takeWhitespace_remaining [of c1 c2]
      take_token_remaining [of c2 t c3] by auto
  then show "((c3, result @ [expr]), (cursor, result)) \<in> measure (\<lambda>(cursor, result). remaining cursor)"
    by simp
qed

declare Query_loop.simps [simp del]

definition Query_parse :: "scanner \<Rightarrow> (query \<times> scanner) outcome" where
  "Query_parse cursor =
     (case takeWhitespace cursor of
        Throws e \<Rightarrow> Throws e
      | Hangs \<Rightarrow> Hangs
      | Returns c \<Rightarrow> Query_loop c [])"

lemma Query_loop_remaining:
  "Query_loop cursor result = Returns (q, c') \<Longrightarrow> remaining c' \<le> remaining cursor"
proof (induction cursor result arbitrary: q c' rule: Query_loop.induct)
  case (1 cursor result)
  note prem = "1.prems" [unfolded Query_loop.simps [of cursor result]]
  from prem obtain expr c1 c2 where
    s: "Expression_parse cursor False = Returns (expr, c1)" "takeWhitespace c1 = Returns c2"
    by (auto split: outcome.splits)
  have r2: "remaining c2 \<le> remaining cursor"
    using Expression_parse_remaining [OF s(1)] takeWhitespace_remaining [OF s(2)] by simp
  show ?case
  proof (cases "t_kind c2 = Some 1001")
    case True
    from prem s True obtain t c3 where
      u: "take_token c2 = Returns (t, c3)" "Query_loop c3 (result @ [expr]) = Returns (q, c')"
      by (auto split: outcome.splits)
    have "remaining c3 \<le> remaining c2" using take_token_remaining_le [OF u(1)] True by simp
    moreover have "remaining c' \<le> remaining c3"
      using "1.IH" [OF s(1) refl s(2) True u(1) refl u(2)] .
    ultimately show ?thesis using r2 by simp
  next
    case False
    then have "c' = c2" using prem s by auto
    then show ?thesis using r2 by simp
  qed
qed

lemma Query_parse_remaining:
  "Query_parse cursor = Returns (q, c') \<Longrightarrow> remaining c' \<le> remaining cursor"
  by (auto simp: Query_parse_def split: outcome.splits
      dest!: takeWhitespace_remaining Query_loop_remaining)

text \<open>
  The generator \<open>QueryList.parseQuery(cursor)\<close>: the queries it yields, in order, and
  how it ends: it returns, it throws, or it never comes back from a call.
\<close>

datatype gen_end = Finished | Threw error | NeverEnds

function parseQuery_gen :: "scanner \<Rightarrow> query list \<times> gen_end" where
  "parseQuery_gen cursor =
     (case takeWhitespace cursor of
        Throws e \<Rightarrow> ([], Threw e)
      | Hangs \<Rightarrow> ([], NeverEnds)
      | Returns c1 \<Rightarrow>
          if eof c1 then ([], Finished)
          else
            (case Query_parse c1 of
               Throws e \<Rightarrow> ([], Threw e)
             | Hangs \<Rightarrow> ([], NeverEnds)
             | Returns (q, c2) \<Rightarrow>
                 (case takeWhitespace c2 of
                    Throws e \<Rightarrow> ([q], Threw e)
                  | Hangs \<Rightarrow> ([q], NeverEnds)
                  | Returns c3 \<Rightarrow>
                      if eof c3 then ([q], Finished)
                      else if t_kind c3 = Some 21 then
                        (case take_token c3 of
                           Throws e \<Rightarrow> ([q], Threw e)
                         | Hangs \<Rightarrow> ([q], NeverEnds)
                         | Returns (t, c4) \<Rightarrow>
                             (let r = parseQuery_gen c4 in (q # fst r, snd r)))
                      else if t_kind c3 = Some 1 then ([q], Finished)
                      else ([q], Threw (ExpectedComma (t_text c3))))))"
  by pat_completeness auto
termination
proof (relation "measure remaining")
  show "wf (measure remaining)" by simp
next
  fix cursor :: scanner and c1 x q c2 c3 y t c4
  assume "takeWhitespace cursor = Returns c1" "Query_parse c1 = Returns x" "(q, c2) = x"
    "takeWhitespace c2 = Returns c3" "t_kind c3 = Some 21" "take_token c3 = Returns y" "(t, c4) = y"
  then have "remaining c1 \<le> remaining cursor" "remaining c2 \<le> remaining c1"
    "remaining c3 \<le> remaining c2" "remaining c4 < remaining c3"
    using takeWhitespace_remaining [of cursor c1] Query_parse_remaining [of c1 q c2]
      takeWhitespace_remaining [of c2 c3] take_token_remaining [of c3 t c4] by auto
  then show "(c4, cursor) \<in> measure remaining" by simp
qed

declare parseQuery_gen.simps [simp del]

text \<open>
  \<open>QueryList.parse(cursor)\<close>: the \<open>try\<close> block scans once and pushes every query the
  generator yields; the \<open>catch\<close> block stores what was thrown in \<open>error\<close>.
\<close>

definition QueryList_parse :: "scanner \<Rightarrow> query_list outcome" where
  "QueryList_parse cursor =
     (case scan cursor of
        Throws e \<Rightarrow> Returns \<lparr>queries = [], error = Some e\<rparr>
      | Hangs \<Rightarrow> Hangs
      | Returns c \<Rightarrow>
          (case parseQuery_gen c of
             (qs, Finished) \<Rightarrow> Returns \<lparr>queries = qs, error = None\<rparr>
           | (qs, Threw e) \<Rightarrow> Returns \<lparr>queries = qs, error = Some e\<rparr>
           | (qs, NeverEnds) \<Rightarrow> Hangs))"

text \<open>\<open>function parseQuery(text)\<close>\<close>

definition parseQuery :: "jsstring \<Rightarrow> query_list outcome" where
  "parseQuery t = QueryList_parse (new_Scanner t)"



section \<open>The index (Index, Key, StringKey, IdentityKey, SemverKey, IndexSchema)\<close>

subsection \<open>Sets of target ids and sorted maps\<close>

text \<open>
  A JavaScript \<open>Set\<close> of target ids: its elements in insertion order, each once.
\<close>

type_synonym ids = "nat list"

definition set_add :: "nat \<Rightarrow> ids \<Rightarrow> ids" where
  "set_add n s = (if n \<in> set s then s else s @ [n])"

text \<open>\<open>new Set(iterable)\<close>\<close>

definition new_Set :: "nat list \<Rightarrow> ids" where
  "new_Set xs = foldl (\<lambda>s n. set_add n s) [] xs"

text \<open>
  The sorted maps of the source are \<open>BTree\<close>s of the npm package sorted-btree, which
  is not part of the repository. A tree is modelled by its entries in ascending order of
  their keys, and the operations the source calls by what the package documents for
  them: \<open>set\<close> replaces the value of a key that is there and inserts the pair in
  order otherwise, \<open>get\<close> looks a key up, \<open>minKey\<close> and \<open>maxKey\<close> are the
  first and the last key (\<open>undefined\<close> for an empty tree), and
  \<open>forRange(low, high, includeHigh, onFound)\<close> visits in ascending order the pairs
  whose key is at least \<open>low\<close> and below \<open>high\<close>, and the pair of \<open>high\<close>
  itself exactly when \<open>includeHigh\<close> is true. The comparator of a tree is the order
  of the key type.
\<close>

type_synonym ('k, 'v) btree = "('k \<times> 'v) list"

fun bt_set :: "'k::linorder \<Rightarrow> 'v \<Rightarrow> ('k, 'v) btree \<Rightarrow> ('k, 'v) btree" where
  "bt_set k v [] = [(k, v)]"
| "bt_set k v ((k', v') # m) =
     (if k = k' then (k, v) # m
      else if k < k' then (k, v) # (k', v') # m
      else (k', v') # bt_set k v m)"

definition bt_get :: "'k \<Rightarrow> ('k, 'v) btree \<Rightarrow> 'v option" where
  "bt_get k m = map_of m k"

definition minKey :: "('k, 'v) btree \<Rightarrow> 'k option" where
  "minKey m = (case m of [] \<Rightarrow> None | (k, v) # r \<Rightarrow> Some k)"

definition maxKey :: "('k, 'v) btree \<Rightarrow> 'k option" where
  "maxKey m = (if m = [] then None else Some (fst (last m)))"

definition forRange :: "'k::linorder \<Rightarrow> 'k \<Rightarrow> bool \<Rightarrow> ('k, 'v) btree \<Rightarrow> ('k \<times> 'v) list" where
  "forRange low high includeHigh m =
     filter (\<lambda>(k, v). low \<le> k \<and> (k < high \<or> (includeHigh \<and> k = high))) m"

text \<open>
  A JavaScript \<open>Map\<close> with string keys, and a plain object used as one: the entries
  in insertion order; \<open>set\<close> (or \<open>obj[key] = value\<close>) overwrites the value of a
  key that is there and appends the entry otherwise.
\<close>

fun map_set :: "'a \<Rightarrow> 'b \<Rightarrow> ('a \<times> 'b) list \<Rightarrow> ('a \<times> 'b) list" where
  "map_set k v [] = [(k, v)]"
| "map_set k v ((k', v') # m) = (if k = k' then (k, v) # m else (k', v') # map_set k v m)"

definition map_delete :: "'a \<Rightarrow> ('a \<times> 'b) list \<Rightarrow> ('a \<times> 'b) list" where
  "map_delete k m = filter (\<lambda>(k', v). k' \<noteq> k) m"

subsection \<open>Keys\<close>

text \<open>
  The data of a \<open>Key\<close> object: its identity and alternative identities, the sorted
  map \<open>values\<close> from key values to sets of target ids and the sorted map \<open>words\<close>,
  and the two fields an \<open>IdentityKey\<close> adds, \<open>identities\<close> and \<open>idShortName\<close>
  (they stay empty in a key of another class). \<open>nestedKeys\<close> is initialised empty and
  nothing in the file adds to it, so the loops over it do nothing and it is left out.
\<close>

record 'k keydata =
  identity :: jsstring
  alternativeIdentities :: "jsstring list"
  kvalues :: "('k, ids) btree"
  kwords :: "(jsstring, ids) btree"
  identities :: "(jsstring, ids) btree"
  idShortName :: "(jsstring \<times> jsstring) list"

text \<open>What \<open>Key.serialize\<close> returns; \<open>words\<close> may be \<open>undefined\<close>.\<close>

record persisted_key =
  p_keys :: "(jsstring \<times> nat list) list"
  p_words :: "(jsstring \<times> nat list) list option"

datatype index_error = TypeError | FailedToDeserialize jsstring

text \<open>
  The methods a subclass of \<open>Key\<close> overrides, as a dictionary: \<open>coerce\<close> (which
  throws for a \<open>SemverKey\<close> when the string is no version), \<open>addWord\<close>,
  \<open>doneInsertion\<close> (\<open>None\<close> when it does not return), \<open>cloneKey\<close>,
  \<open>serialize\<close> and \<open>deserialize\<close>; and what JavaScript does with a key value by
  its type: \<open>toString()\<close> and its truthiness. \<open>compare\<close> is the order of \<open>'k\<close>.
  \<open>nameOrShortNameIs\<close> and \<open>rangeMatch\<close> are the methods only one subclass has
  (\<open>None\<close> in the others); each is given by the ids it passes to \<open>filter\<close>, as
  explained with the filtering operations below. A value to search for is
  \<open>undefined\<close> or a string.
\<close>

record 'k key_class =
  coerce :: "jsstring \<Rightarrow> index_error + 'k"
  keyToString :: "'k \<Rightarrow> jsstring"
  keyTruthy :: "'k \<Rightarrow> bool"
  addWord :: "'k \<Rightarrow> nat \<Rightarrow> 'k keydata \<Rightarrow> 'k keydata"
  doneInsertion :: "'k keydata \<Rightarrow> 'k keydata option"
  cloneKey :: "'k keydata \<Rightarrow> 'k keydata \<Rightarrow> 'k keydata"
  serialize :: "'k keydata \<Rightarrow> persisted_key"
  deserialize :: "persisted_key \<Rightarrow> 'k keydata \<Rightarrow> (index_error + 'k keydata) option"
  nameOrShortNameIs ::
    "('k keydata \<Rightarrow> jsstring option \<Rightarrow> index_error + nat list option) option"
  rangeMatch ::
    "('k keydata \<Rightarrow> ids option \<Rightarrow> jsstring \<Rightarrow> index_error + nat list option) option"

text \<open>
  What an accessor returns for a target: nothing, one key value, or an array (or another
  iterable) of key values.
\<close>

datatype 'k accessed = AUndefined | AScalar 'k | AList "'k list"

text \<open>A key object: its data, its class and its accessor.\<close>

record ('k, 'g) key =
  kdata :: "'k keydata"
  cls :: "'k key_class"
  accessor :: "'g \<Rightarrow> 'k accessed"

text \<open>\<open>Key.addKey(each, n)\<close>\<close>

definition Key_addKey :: "'k::linorder \<Rightarrow> nat \<Rightarrow> 'k keydata \<Rightarrow> 'k keydata" where
  "Key_addKey each n d =
     d\<lparr>kvalues := bt_set each
          (set_add n (case bt_get each (kvalues d) of None \<Rightarrow> [] | Some s \<Rightarrow> s)) (kvalues d)\<rparr>"

text \<open>
  \<open>each.toString().split(/(\W+)/g)\<close>: the pieces of word characters
  (\<open>[A-Za-z0-9_]\<close>) at the even positions and the runs of other characters between
  them at the odd ones. \<open>split_go\<close> holds the piece or the run it is reading.
\<close>

definition isWordChar :: "nat \<Rightarrow> bool" where
  "isWordChar c = ((48 \<le> c \<and> c \<le> 57) \<or> (65 \<le> c \<and> c \<le> 90) \<or> (97 \<le> c \<and> c \<le> 122) \<or> c = 95)"

fun split_go :: "bool \<Rightarrow> jsstring \<Rightarrow> jsstring \<Rightarrow> jsstring list" where
  "split_go inRun cur [] = (if inRun then [cur, []] else [cur])"
| "split_go inRun cur (c # cs) =
     (if isWordChar c = inRun then cur # split_go (\<not> inRun) [c] cs
      else split_go inRun (cur @ [c]) cs)"

definition split_nonword :: "jsstring \<Rightarrow> jsstring list" where
  "split_nonword s = split_go False [] s"

text \<open>
  The strings the two loops of \<open>addWord\<close> build: for every even \<open>word\<close> and every
  \<open>i = word, word + 2, ...\<close> below the length, \<open>words.slice(word, i + 1).join('')\<close>.
\<close>

definition word_runs :: "jsstring list \<Rightarrow> jsstring list" where
  "word_runs words =
     concat (map (\<lambda>word. map (\<lambda>i. concat (take (i + 1 - word) (drop word words)))
                            (filter even [word..<length words]))
                 (filter even [0..<length words]))"

definition add_word_entry :: "nat \<Rightarrow> jsstring \<Rightarrow> 'k keydata \<Rightarrow> 'k keydata" where
  "add_word_entry n s d =
     (if s \<noteq> [] \<and> 32 \<notin> set s
      then d\<lparr>kwords := bt_set s
             (set_add n (case bt_get s (kwords d) of None \<Rightarrow> [] | Some w \<Rightarrow> w)) (kwords d)\<rparr>
      else d)"

text \<open>\<open>Key.addWord(each, n)\<close>, given the string of \<open>each\<close>.\<close>

definition Key_addWord :: "('k \<Rightarrow> jsstring) \<Rightarrow> 'k \<Rightarrow> nat \<Rightarrow> 'k keydata \<Rightarrow> 'k keydata" where
  "Key_addWord toStr each n d = fold (add_word_entry n) (word_runs (split_nonword (toStr each))) d"

text \<open>\<open>Key.insertKey(graph, n, value)\<close> for the array \<open>insert\<close> passes it.\<close>

definition Key_insertKey :: "'k::linorder key_class \<Rightarrow> nat \<Rightarrow> 'k list \<Rightarrow> 'k keydata \<Rightarrow> 'k keydata" where
  "Key_insertKey c n vs d = fold (\<lambda>each d'. addWord c each n (Key_addKey each n d')) vs d"

text \<open>
  \<open>Key.insert(graph, n)\<close>: a falsy value is skipped, an array is taken as it is,
  anything else is wrapped in an array.
\<close>

definition Key_insert :: "'g \<Rightarrow> nat \<Rightarrow> ('k::linorder, 'g) key \<Rightarrow> ('k, 'g) key" where
  "Key_insert graph n key =
     (case accessor key graph of
        AUndefined \<Rightarrow> key
      | AScalar v \<Rightarrow>
          (if keyTruthy (cls key) v
           then key\<lparr>kdata := Key_insertKey (cls key) n [v] (kdata key)\<rparr> else key)
      | AList vs \<Rightarrow> key\<lparr>kdata := Key_insertKey (cls key) n vs (kdata key)\<rparr>)"

text \<open>
  \<open>object[name] = value\<close> for an object made by the literal \<open>{}\<close> and a value
  that is an object, as the arrays \<open>serialize\<close> stores are. The object gets the
  property \<open>name\<close>, for every name but one: an assignment to \<open>__proto__\<close> calls
  the setter the object inherits from \<open>Object.prototype\<close>, which makes the value the
  prototype of the object and creates no property. The properties are kept in the order
  of their first assignment; JavaScript lists those named by an array index first, which
  plays no role for \<open>deserialize\<close>, since it puts each entry into a sorted map.
\<close>

definition obj_set :: "jsstring \<Rightarrow> 'a \<Rightarrow> (jsstring \<times> 'a) list \<Rightarrow> (jsstring \<times> 'a) list" where
  "obj_set name v obj = (if name = str ''__proto__'' then obj else map_set name v obj)"

text \<open>
  \<open>Key.serialize()\<close>: \<open>result.keys[each[0]] = [...each[1]]\<close> for every entry of
  \<open>values\<close>, under the string of the key, and the same for \<open>words\<close>.
\<close>

definition Key_serialize :: "('k \<Rightarrow> jsstring) \<Rightarrow> 'k keydata \<Rightarrow> persisted_key" where
  "Key_serialize toStr d =
     \<lparr>p_keys = fold (\<lambda>each r. obj_set (toStr (fst each)) (snd each) r) (kvalues d) [],
      p_words = Some (fold (\<lambda>each r. obj_set (fst each) (snd each) r) (kwords d) [])\<rparr>"

text \<open>
  \<open>Key.deserialize(content)\<close>. The helper \<open>entries\<close> of util/linq is not among the
  sources; it is taken to list the properties of the object, and none for \<open>undefined\<close>.
\<close>

fun deserialize_keys :: "(jsstring \<Rightarrow> index_error + 'k::linorder) \<Rightarrow> (jsstring \<times> nat list) list
    \<Rightarrow> 'k keydata \<Rightarrow> index_error + 'k keydata" where
  "deserialize_keys co [] d = Inr d"
| "deserialize_keys co ((key, is) # r) d =
     (case co key of
        Inl e \<Rightarrow> Inl e
      | Inr k \<Rightarrow> deserialize_keys co r (d\<lparr>kvalues := bt_set k (new_Set is) (kvalues d)\<rparr>))"

definition Key_deserialize :: "(jsstring \<Rightarrow> index_error + 'k::linorder) \<Rightarrow> persisted_key
    \<Rightarrow> 'k keydata \<Rightarrow> index_error + 'k keydata" where
  "Key_deserialize co content d =
     (case deserialize_keys co (p_keys content) d of
        Inl e \<Rightarrow> Inl e
      | Inr d' \<Rightarrow>
          Inr (fold (\<lambda>(key, is) d''. d''\<lparr>kwords := bt_set key (new_Set is) (kwords d'')\<rparr>)
                 (case p_words content of None \<Rightarrow> [] | Some ws \<Rightarrow> ws) d'))"

text \<open>\<open>Key.cloneKey(from)\<close>: \<open>greedyClone\<close> gives a tree with the same entries.\<close>

definition Key_cloneKey :: "'k keydata \<Rightarrow> 'k keydata \<Rightarrow> 'k keydata" where
  "Key_cloneKey from d = d\<lparr>kvalues := kvalues from, kwords := kwords from\<rparr>"

subsection \<open>IdentityKey: short names\<close>

text \<open>\<open>value.split('/')\<close> and \<open>join('/')\<close>; the code unit of \<open>/\<close> is 47.\<close>

fun split_slash :: "jsstring \<Rightarrow> jsstring \<Rightarrow> jsstring list" where
  "split_slash cur [] = [cur]"
| "split_slash cur (c # cs) =
     (if c = 47 then cur # split_slash [] cs else split_slash (cur @ [c]) cs)"

fun join_slash :: "jsstring list \<Rightarrow> jsstring" where
  "join_slash [] = []"
| "join_slash [x] = x"
| "join_slash (x # y # r) = x @ [47] @ join_slash (y # r)"

text \<open>\<open>function shortName(value, n)\<close>: the last \<open>n\<close> segments of the path.\<close>

definition shortName :: "jsstring \<Rightarrow> nat \<Rightarrow> jsstring" where
  "shortName v n =
     (let segs = split_slash [] v;
          p = (if int (length segs) - int n < 0 then 0 else length segs - n)
      in join_slash (drop p segs))"

text \<open>
  The class \<open>ManyMap\<close> of util/linq is not among the sources. It is a \<open>Map\<close> from a
  key to an array of values, and \<open>push(key, value)\<close> appends the value to the array
  of the key, which it creates when the key is new.
\<close>

fun manymap_push :: "'a \<Rightarrow> 'b \<Rightarrow> ('a \<times> 'b list) list \<Rightarrow> ('a \<times> 'b list) list" where
  "manymap_push k v [] = [(k, [v])]"
| "manymap_push k v ((k', vs) # m) =
     (if k = k' then (k', vs @ [v]) # m else (k', vs) # manymap_push k v m)"

text \<open>
  One step of the \<open>for\<close> loop inside the \<open>while\<close> loop of \<open>doneInsertion\<close>,
  for the entry \<open>[snKey, artifacts]\<close> of the snapshot \<open>[...ids.entries()]\<close>.
  An artifact is an entry \<open>[identity, set of target ids]\<close> of \<open>values\<close>.
\<close>

definition shortName_step :: "nat \<Rightarrow> jsstring \<times> (jsstring \<times> ids) list
    \<Rightarrow> (jsstring \<times> (jsstring \<times> ids) list) list \<times> jsstring keydata
    \<Rightarrow> (jsstring \<times> (jsstring \<times> ids) list) list \<times> jsstring keydata" where
  "shortName_step n entry st =
     (let snKey = fst entry; artifacts = snd entry;
          ids' = map_delete snKey (fst st); d = snd st
      in if length artifacts = 1
         then (ids', d\<lparr>identities := bt_set snKey (snd (hd artifacts)) (identities d),
                        idShortName := map_set (fst (hd artifacts)) snKey (idShortName d)\<rparr>)
         else (fold (\<lambda>each m. manymap_push (shortName (fst each) n) each m) artifacts ids', d))"

text \<open>The \<open>while (ids.size > 0)\<close> loop; \<open>None\<close> when it does not end.\<close>

partial_function (option) shortName_loop :: "nat \<Rightarrow> (jsstring \<times> (jsstring \<times> ids) list) list
    \<Rightarrow> jsstring keydata \<Rightarrow> jsstring keydata option" where
  "shortName_loop n ids d =
     (if ids = [] then Some d
      else (let st = fold (shortName_step (n + 1)) ids (ids, d)
            in shortName_loop (n + 1) (fst st) (snd st)))"

declare shortName_loop.simps [code]

text \<open>\<open>IdentityKey.doneInsertion()\<close>\<close>

definition IdentityKey_doneInsertion :: "jsstring keydata \<Rightarrow> jsstring keydata option" where
  "IdentityKey_doneInsertion d =
     shortName_loop 1
       (fold (\<lambda>idAndIndexNumber m. manymap_push (shortName (fst idAndIndexNumber) 1) idAndIndexNumber m)
          (kvalues d) [])
       d"

text \<open>\<open>IdentityKey.cloneKey(from)\<close>\<close>

definition IdentityKey_cloneKey :: "jsstring keydata \<Rightarrow> jsstring keydata \<Rightarrow> jsstring keydata" where
  "IdentityKey_cloneKey from d =
     (Key_cloneKey from d)\<lparr>identities := identities from, idShortName := idShortName from\<rparr>"

text \<open>\<open>IdentityKey.deserialize(content)\<close>\<close>

definition IdentityKey_deserialize :: "persisted_key \<Rightarrow> jsstring keydata
    \<Rightarrow> (index_error + jsstring keydata) option" where
  "IdentityKey_deserialize content d =
     (case Key_deserialize Inr content d of
        Inl e \<Rightarrow> Some (Inl e)
      | Inr d' \<Rightarrow> map_option Inr (IdentityKey_doneInsertion d'))"

text \<open>\<open>IdentityKey.getShortNameOf(id)\<close>\<close>

definition getShortNameOf :: "jsstring keydata \<Rightarrow> jsstring \<Rightarrow> jsstring option" where
  "getShortNameOf d i = map_of (idShortName d) i"

subsection \<open>IndexSchema and the filtering operations of a key\<close>

text \<open>
  An \<open>IndexSchema\<close>: the keys by identity, in the order of their construction, and
  the selected element ids (\<open>undefined\<close>: the whole set is selected).
\<close>

record ('k, 'g) schema =
  mapOfKeyObjects :: "(jsstring \<times> ('k, 'g) key) list"
  selectedElements :: "ids option"

text \<open>
  \<open>IndexSchema.filter(idsToKeep)\<close>, as the new value of \<open>selectedElements\<close>.
  A \<open>Set\<close> object is truthy, also when it is empty.
\<close>

definition filter_selected :: "ids option \<Rightarrow> nat list \<Rightarrow> ids option" where
  "filter_selected sel idsToKeep =
     (case sel of
        Some selected0 \<Rightarrow>
          Some (foldl (\<lambda>selected each. if each \<in> set selected0 then set_add each selected else selected)
                  [] idsToKeep)
      | None \<Rightarrow> Some (new_Set idsToKeep))"

definition IndexSchema_filter :: "nat list \<Rightarrow> ('k, 'g) schema \<Rightarrow> ('k, 'g) schema" where
  "IndexSchema_filter idsToKeep sch =
     sch\<lparr>selectedElements := filter_selected (selectedElements sch) idsToKeep\<rparr>"

text \<open>
  The filtering operations of a key return the schema the key belongs to, narrowed. Each
  is given here by the ids it passes to \<open>filter\<close>: \<open>None\<close> when it does not call
  \<open>filter\<close>, \<open>Inl\<close> when it throws. The operation itself is \<open>narrow\<close> of that.
\<close>

definition narrow :: "index_error + nat list option \<Rightarrow> ('k, 'g) schema
    \<Rightarrow> index_error + ('k, 'g) schema" where
  "narrow r sch =
     (case r of
        Inl e \<Rightarrow> Inl e
      | Inr None \<Rightarrow> Inr sch
      | Inr (Some idsToKeep) \<Rightarrow> Inr (IndexSchema_filter idsToKeep sch))"

text \<open>\<open>matches || []\<close>\<close>

definition or_empty :: "ids option \<Rightarrow> nat list" where
  "or_empty matches = (case matches of None \<Rightarrow> [] | Some m \<Rightarrow> m)"

text \<open>\<open>Key.contains(value)\<close>\<close>

definition contains_ids :: "'k keydata \<Rightarrow> jsstring option \<Rightarrow> index_error + nat list option" where
  "contains_ids d v =
     (case v of
        None \<Rightarrow> Inr None
      | Some s \<Rightarrow> if s \<noteq> [] then Inr (Some (or_empty (bt_get s (kwords d)))) else Inr None)"

text \<open>\<open>Key.equals(value)\<close>\<close>

definition equals_ids :: "(jsstring \<Rightarrow> index_error + 'k) \<Rightarrow> 'k keydata \<Rightarrow> jsstring option
    \<Rightarrow> index_error + nat list option" where
  "equals_ids co d v =
     (case v of
        None \<Rightarrow> Inr None
      | Some s \<Rightarrow>
          if s \<noteq> [] then
            (case co s of
               Inl e \<Rightarrow> Inl e
             | Inr k \<Rightarrow> Inr (Some (or_empty (bt_get k (kvalues d)))))
          else Inr None)"

text \<open>The ids the callback of \<open>forRange\<close> adds to the local set, pair by pair.\<close>

definition collect_ids :: "('k \<times> ids) list \<Rightarrow> ids" where
  "collect_ids ps = fold (\<lambda>(k, v) s. fold set_add v s) ps []"

text \<open>\<open>Key.greaterThan(value)\<close>\<close>

definition greaterThan_ids :: "'k::linorder key_class \<Rightarrow> 'k keydata \<Rightarrow> jsstring option
    \<Rightarrow> index_error + nat list option" where
  "greaterThan_ids c d v =
     (case maxKey (kvalues d) of
        None \<Rightarrow> Inr (Some [])
      | Some mx \<Rightarrow>
          (case v of
             None \<Rightarrow> Inr (Some [])
           | Some s \<Rightarrow>
               if keyTruthy c mx \<and> s \<noteq> [] then
                 (case coerce c s of
                    Inl e \<Rightarrow> Inl e
                  | Inr low \<Rightarrow> Inr (Some (collect_ids (forRange low mx True (kvalues d)))))
               else Inr (Some [])))"

text \<open>
  \<open>Key.lessThan(value)\<close>. The source coerces the value twice; \<open>coerce\<close> returns a
  key value as it is.
\<close>

definition lessThan_ids :: "'k::linorder key_class \<Rightarrow> 'k keydata \<Rightarrow> jsstring option
    \<Rightarrow> index_error + nat list option" where
  "lessThan_ids c d v =
     (case minKey (kvalues d) of
        None \<Rightarrow> Inr (Some [])
      | Some mn \<Rightarrow>
          (case v of
             None \<Rightarrow> Inr (Some [])
           | Some s \<Rightarrow>
               if keyTruthy c mn \<and> s \<noteq> [] then
                 (case coerce c s of
                    Inl e \<Rightarrow> Inl e
                  | Inr high \<Rightarrow> Inr (Some (collect_ids (forRange mn high False (kvalues d)))))
               else Inr (Some [])))"

text \<open>
  The linear scans of \<open>startsWith\<close>, \<open>endsWith\<close> and \<open>rangeMatch\<close>: every id of
  every entry of \<open>values\<close> that is currently selected is tested, and added to the local
  set when the test of the entry's key holds. The test throws (\<open>None\<close>) when it calls
  \<open>toString\<close> on \<open>undefined\<close>.
\<close>

fun scan_ids :: "ids option \<Rightarrow> 'k \<Rightarrow> bool option \<Rightarrow> ids \<Rightarrow> ids \<Rightarrow> index_error + ids" where
  "scan_ids sel k t [] acc = Inr acc"
| "scan_ids sel k t (i # r) acc =
     (if sel = None \<or> i \<in> set (or_empty sel) then
        (case t of
           None \<Rightarrow> Inl TypeError
         | Some b \<Rightarrow> scan_ids sel k t r (if b then set_add i acc else acc))
      else scan_ids sel k t r acc)"

fun scan_entries :: "ids option \<Rightarrow> ('k \<Rightarrow> bool option) \<Rightarrow> ('k \<times> ids) list \<Rightarrow> ids
    \<Rightarrow> index_error + ids" where
  "scan_entries sel test [] acc = Inr acc"
| "scan_entries sel test (node # r) acc =
     (case scan_ids sel (fst node) (test (fst node)) (snd node) acc of
        Inl e \<Rightarrow> Inl e
      | Inr acc' \<Rightarrow> scan_entries sel test r acc')"

definition startsWith_js :: "jsstring \<Rightarrow> jsstring \<Rightarrow> bool" where
  "startsWith_js s p = (take (length p) s = p)"

definition endsWith_js :: "jsstring \<Rightarrow> jsstring \<Rightarrow> bool" where
  "endsWith_js s p = (length p \<le> length s \<and> drop (length s - length p) s = p)"

text \<open>\<open>Key.startsWith(value)\<close>\<close>

definition startsWith_ids :: "'k key_class \<Rightarrow> 'k keydata \<Rightarrow> ids option \<Rightarrow> jsstring option
    \<Rightarrow> index_error + nat list option" where
  "startsWith_ids c d sel v =
     map_sum (\<lambda>e. e) Some
       (scan_entries sel (\<lambda>k. map_option (startsWith_js (keyToString c k)) v) (kvalues d) [])"

text \<open>\<open>Key.endsWith(value)\<close>\<close>

definition endsWith_ids :: "'k key_class \<Rightarrow> 'k keydata \<Rightarrow> ids option \<Rightarrow> jsstring option
    \<Rightarrow> index_error + nat list option" where
  "endsWith_ids c d sel v =
     map_sum (\<lambda>e. e) Some
       (scan_entries sel (\<lambda>k. map_option (endsWith_js (keyToString c k)) v) (kvalues d) [])"

text \<open>
  \<open>SemverKey.rangeMatch(value)\<close>; \<open>mkRange\<close> stands for \<open>new Range(value)\<close> of the
  package semver (\<open>None\<close> when it throws) and gives the test of the range.
\<close>

definition rangeMatch_ids :: "(jsstring \<Rightarrow> ('k \<Rightarrow> bool) option) \<Rightarrow> 'k keydata \<Rightarrow> ids option
    \<Rightarrow> jsstring \<Rightarrow> index_error + nat list option" where
  "rangeMatch_ids mkRange d sel v =
     (case mkRange v of
        None \<Rightarrow> Inl TypeError
      | Some test \<Rightarrow> map_sum (\<lambda>e. e) Some (scan_entries sel (\<lambda>k. Some (test k)) (kvalues d) []))"

text \<open>\<open>IdentityKey.nameOrShortNameIs(value)\<close>\<close>

definition nameOrShortNameIs_ids :: "(jsstring \<Rightarrow> index_error + 'k) \<Rightarrow> 'k keydata
    \<Rightarrow> jsstring option \<Rightarrow> index_error + nat list option" where
  "nameOrShortNameIs_ids co d v =
     (case v of
        None \<Rightarrow> Inr None
      | Some s \<Rightarrow>
          if s \<noteq> [] then
            (case bt_get s (identities d) of
               Some matches \<Rightarrow> Inr (Some matches)
             | None \<Rightarrow> equals_ids co d v)
          else Inr None)"

text \<open>
  A filtering operation and its argument, and what it passes to \<open>filter\<close> for a key
  and the current selection of the key's schema.
\<close>

subsection \<open>The classes\<close>

text \<open>
  \<open>StringKey\<close>: \<open>coerce\<close> returns its argument, and the other methods are those of
  \<open>Key\<close>. Its comparator puts the empty string first and compares two other strings
  by \<open>localeCompare\<close>, which depends on the locale; it is modelled by the
  lexicographic order of the code units.
\<close>

definition StringKey :: "jsstring key_class" where
  "StringKey =
     \<lparr>coerce = Inr, keyToString = (\<lambda>k. k), keyTruthy = (\<lambda>k. k \<noteq> []),
      addWord = Key_addWord (\<lambda>k. k), doneInsertion = Some, cloneKey = Key_cloneKey,
      serialize = Key_serialize (\<lambda>k. k),
      deserialize = (\<lambda>content d. Some (Key_deserialize Inr content d)),
      nameOrShortNameIs = None, rangeMatch = None\<rparr>"

definition IdentityKey :: "jsstring key_class" where
  "IdentityKey =
     StringKey\<lparr>doneInsertion := IdentityKey_doneInsertion, cloneKey := IdentityKey_cloneKey,
       deserialize := IdentityKey_deserialize,
       nameOrShortNameIs := Some (nameOrShortNameIs_ids Inr)\<rparr>"

text \<open>
  \<open>SemverKey\<close>, over the type \<open>'v\<close> of the \<open>SemVer\<close> objects of the npm package
  semver, which is not part of the repository: \<open>parse\<close> stands for \<open>new SemVer(value)\<close>
  (\<open>None\<close> when it throws), \<open>version\<close> for the \<open>toString()\<close> of a \<open>SemVer\<close>
  and \<open>mkRange\<close> for \<open>new Range(value)\<close>.
  The comparator \<open>a.compare(b)\<close> is the order of \<open>'v\<close>; \<open>addWord\<close> does nothing
  and \<open>serialize\<close> sets \<open>words\<close> to \<open>undefined\<close>.
\<close>

definition SemverKey :: "(jsstring \<Rightarrow> 'v option) \<Rightarrow> ('v \<Rightarrow> jsstring)
    \<Rightarrow> (jsstring \<Rightarrow> ('v \<Rightarrow> bool) option) \<Rightarrow> ('v::linorder) key_class" where
  "SemverKey parse version mkRange =
     (let co = (\<lambda>s. case parse s of None \<Rightarrow> Inl TypeError | Some v \<Rightarrow> Inr v)
      in \<lparr>coerce = co, keyToString = version, keyTruthy = (\<lambda>k. True),
          addWord = (\<lambda>each n d. d), doneInsertion = Some, cloneKey = Key_cloneKey,
          serialize = (\<lambda>d. (Key_serialize version d)\<lparr>p_words := None\<rparr>),
          deserialize = (\<lambda>content d. Some (Key_deserialize co content d)),
          nameOrShortNameIs = None, rangeMatch = Some (rangeMatch_ids mkRange)\<rparr>)"

subsection \<open>Queries on a schema\<close>

text \<open>
  A filtering operation with its argument, and what it passes to \<open>filter\<close> for a key
  and the current selection of the key's schema. Calling a method the class of the key
  does not have throws a \<open>TypeError\<close>.
\<close>

datatype operation =
    Contains "jsstring option"
  | Equals "jsstring option"
  | GreaterThan "jsstring option"
  | LessThan "jsstring option"
  | StartsWith "jsstring option"
  | EndsWith "jsstring option"
  | NameOrShortNameIs "jsstring option"
  | RangeMatch jsstring

definition operation_ids :: "('k::linorder) key_class \<Rightarrow> 'k keydata \<Rightarrow> ids option \<Rightarrow> operation
    \<Rightarrow> index_error + nat list option" where
  "operation_ids c d sel op =
     (case op of
        Contains v \<Rightarrow> contains_ids d v
      | Equals v \<Rightarrow> equals_ids (coerce c) d v
      | GreaterThan v \<Rightarrow> greaterThan_ids c d v
      | LessThan v \<Rightarrow> lessThan_ids c d v
      | StartsWith v \<Rightarrow> startsWith_ids c d sel v
      | EndsWith v \<Rightarrow> endsWith_ids c d sel v
      | NameOrShortNameIs v \<Rightarrow>
          (case nameOrShortNameIs c of None \<Rightarrow> Inl TypeError | Some m \<Rightarrow> m d v)
      | RangeMatch v \<Rightarrow>
          (case rangeMatch c of None \<Rightarrow> Inl TypeError | Some m \<Rightarrow> m d sel v))"

text \<open>
  \<open>schema.<name>.<operation>(value)\<close>: the operation of the key the schema has under
  \<open>name\<close>, which narrows the selection of this schema and returns the schema.
\<close>

definition query_key :: "jsstring \<Rightarrow> operation \<Rightarrow> ('k::linorder, 'g) schema
    \<Rightarrow> index_error + ('k, 'g) schema" where
  "query_key name op sch =
     (case map_of (mapOfKeyObjects sch) name of
        None \<Rightarrow> Inl TypeError
      | Some key \<Rightarrow> narrow (operation_ids (cls key) (kdata key) (selectedElements sch) op) sch)"

text \<open>A chain of such calls, each on the schema the one before it returned.\<close>

fun query_chain :: "(jsstring \<times> operation) list \<Rightarrow> ('k::linorder, 'g) schema
    \<Rightarrow> index_error + ('k, 'g) schema" where
  "query_chain [] sch = Inr sch"
| "query_chain ((name, op) # r) sch =
     (case query_key name op sch of Inl e \<Rightarrow> Inl e | Inr sch' \<Rightarrow> query_chain r sch')"

subsection \<open>Index\<close>

text \<open>
  An \<open>Index\<close>: the constructor of its schema, given by the schema it builds (the keys
  with their classes and accessors, and no data), the schema and the targets.
\<close>

record ('k, 'g, 't) index =
  indexConstructor :: "('k, 'g) schema"
  indexSchema :: "('k, 'g) schema"
  indexOfTargets :: "'t list"

definition new_Index :: "('k, 'g) schema \<Rightarrow> ('k, 'g, 't) index" where
  "new_Index ctor = \<lparr>indexConstructor = ctor, indexSchema = ctor, indexOfTargets = []\<rparr>"

text \<open>\<open>Index.insert(content, target)\<close>\<close>

definition Index_insert :: "'g \<Rightarrow> 't \<Rightarrow> ('k::linorder, 'g, 't) index \<Rightarrow> ('k, 'g, 't) index" where
  "Index_insert content target idx =
     (let n = length (indexOfTargets idx)
      in idx\<lparr>indexOfTargets := indexOfTargets idx @ [target],
             indexSchema := (indexSchema idx)\<lparr>mapOfKeyObjects :=
               map (\<lambda>(name, indexKey). (name, Key_insert content n indexKey))
                 (mapOfKeyObjects (indexSchema idx))\<rparr>\<rparr>)"

text \<open>\<open>Index.doneInsertion()\<close>; \<open>None\<close> when a key's \<open>doneInsertion\<close> does not return.\<close>

fun doneInsertion_keys :: "(jsstring \<times> ('k, 'g) key) list \<Rightarrow> (jsstring \<times> ('k, 'g) key) list option" where
  "doneInsertion_keys [] = Some []"
| "doneInsertion_keys ((name, indexKey) # r) =
     (case doneInsertion (cls indexKey) (kdata indexKey) of
        None \<Rightarrow> None
      | Some d \<Rightarrow>
          (case doneInsertion_keys r of
             None \<Rightarrow> None
           | Some r' \<Rightarrow> Some ((name, indexKey\<lparr>kdata := d\<rparr>) # r')))"

definition Index_doneInsertion :: "('k, 'g, 't) index \<Rightarrow> ('k, 'g, 't) index option" where
  "Index_doneInsertion idx =
     map_option (\<lambda>ks. idx\<lparr>indexSchema := (indexSchema idx)\<lparr>mapOfKeyObjects := ks\<rparr>\<rparr>)
       (doneInsertion_keys (mapOfKeyObjects (indexSchema idx)))"

text \<open>
  \<open>get where()\<close>: a new index of the same constructor; each key of its schema clones
  the key of the same name of this index, and the new schema is returned.
\<close>

fun clone_keys :: "(jsstring \<times> ('k, 'g) key) list \<Rightarrow> (jsstring \<times> ('k, 'g) key) list
    \<Rightarrow> index_error + (jsstring \<times> ('k, 'g) key) list" where
  "clone_keys [] fresh = Inr fresh"
| "clone_keys ((name, impl) # r) fresh =
     (case map_of fresh name of
        None \<Rightarrow> Inl TypeError
      | Some k \<Rightarrow>
          clone_keys r (map_set name (k\<lparr>kdata := cloneKey (cls k) (kdata impl) (kdata k)\<rparr>) fresh))"

definition Index_where :: "('k, 'g, 't) index \<Rightarrow> index_error + ('k, 'g) schema" where
  "Index_where idx =
     (case clone_keys (mapOfKeyObjects (indexSchema idx)) (mapOfKeyObjects (indexConstructor idx)) of
        Inl e \<Rightarrow> Inl e
      | Inr ks \<Rightarrow> Inr ((indexConstructor idx)\<lparr>mapOfKeyObjects := ks\<rparr>))"

text \<open>
  \<open>IndexSchema.serialize()\<close> and \<open>Index.serialize()\<close>. The names of the keys of a
  schema are written in its class; \<open>result[key]\<close> and, in \<open>deserialize\<close>,
  \<open>content[maybeIdentity]\<close> are taken to write and to read a property of the object,
  as they do for a name that \<open>Object.prototype\<close> has no property for.
\<close>

definition IndexSchema_serialize :: "('k, 'g) schema \<Rightarrow> (jsstring \<times> persisted_key) list" where
  "IndexSchema_serialize sch =
     fold (\<lambda>(name, impl) r. map_set name (serialize (cls impl) (kdata impl)) r)
       (mapOfKeyObjects sch) []"

record 't persisted =
  items :: "'t list"
  indexes :: "(jsstring \<times> persisted_key) list"

definition Index_serialize :: "('k, 'g, 't) index \<Rightarrow> 't persisted" where
  "Index_serialize idx =
     \<lparr>items = indexOfTargets idx, indexes = IndexSchema_serialize (indexSchema idx)\<rparr>"

text \<open>
  \<open>IndexSchema.deserialize(content)\<close>: each key reads the first of its alternative
  identities that the content has; the error when it has none. \<open>None\<close> when the
  \<open>deserialize\<close> of a key does not return.
\<close>

fun first_alternative :: "(jsstring \<times> persisted_key) list \<Rightarrow> jsstring list \<Rightarrow> persisted_key option" where
  "first_alternative content [] = None"
| "first_alternative content (maybeIdentity # r) =
     (case map_of content maybeIdentity of
        Some maybeKey \<Rightarrow> Some maybeKey
      | None \<Rightarrow> first_alternative content r)"

fun deserialize_schema_keys :: "(jsstring \<times> persisted_key) list \<Rightarrow> (jsstring \<times> ('k, 'g) key) list
    \<Rightarrow> (index_error + (jsstring \<times> ('k, 'g) key) list) option" where
  "deserialize_schema_keys content [] = Some (Inr [])"
| "deserialize_schema_keys content ((name, impl) # r) =
     (case first_alternative content (alternativeIdentities (kdata impl)) of
        None \<Rightarrow> Some (Inl (FailedToDeserialize name))
      | Some maybeKey \<Rightarrow>
          (case deserialize (cls impl) maybeKey (kdata impl) of
             None \<Rightarrow> None
           | Some (Inl e) \<Rightarrow> Some (Inl e)
           | Some (Inr d) \<Rightarrow>
               (case deserialize_schema_keys content r of
                  None \<Rightarrow> None
                | Some (Inl e) \<Rightarrow> Some (Inl e)
                | Some (Inr r') \<Rightarrow> Some (Inr ((name, impl\<lparr>kdata := d\<rparr>) # r')))))"

text \<open>\<open>Index.deserialize(content)\<close>\<close>

definition Index_deserialize :: "'t persisted \<Rightarrow> ('k, 'g, 't) index
    \<Rightarrow> (index_error + ('k, 'g, 't) index) option" where
  "Index_deserialize content idx =
     (case deserialize_schema_keys (indexes content) (mapOfKeyObjects (indexSchema idx)) of
        None \<Rightarrow> None
      | Some (Inl e) \<Rightarrow> Some (Inl e)
      | Some (Inr ks) \<Rightarrow>
          Some (Inr (idx\<lparr>indexOfTargets := items content,
                         indexSchema := (indexSchema idx)\<lparr>mapOfKeyObjects := ks\<rparr>\<rparr>)))"

subsection \<open>Building a schema\<close>

text \<open>
  The constructor of \<open>Key\<close>: the identity is the string \<open>protoIdentity\<close>, or the
  first element of the array \<open>protoIdentity\<close> (given here as the first element and
  the rest), and the maps are empty. The constructor also enters the key in
  \<open>mapOfKeyObjects\<close> of its schema, which \<open>new_schema\<close> does for the keys a schema
  class constructs.
\<close>

definition new_Key :: "'k key_class \<Rightarrow> ('g \<Rightarrow> 'k accessed) \<Rightarrow> jsstring \<Rightarrow> jsstring list \<Rightarrow> ('k, 'g) key" where
  "new_Key c acc first rest =
     \<lparr>kdata = \<lparr>identity = first, alternativeIdentities = first # rest, kvalues = [],
               kwords = [], identities = [], idShortName = []\<rparr>,
      cls = c, accessor = acc\<rparr>"

definition new_schema :: "('k, 'g) key list \<Rightarrow> ('k, 'g) schema" where
  "new_schema ks =
     \<lparr>mapOfKeyObjects = fold (\<lambda>k m. map_set (identity (kdata k)) k m) ks [],
      selectedElements = None\<rparr>"

text \<open>
  The scenario of three targets: a schema with one \<open>IdentityKey\<close> named \<open>id\<close> whose
  accessor returns the target's identity, and the index after the three insertions.
\<close>

definition identity_schema :: "(jsstring, jsstring) schema" where
  "identity_schema = new_schema [new_Key IdentityKey AScalar (str ''id'') []]"

definition three_identities :: "(jsstring, jsstring, jsstring) index" where
  "three_identities =
     Index_insert (str ''a/b/y'') (str ''a/b/y'')
       (Index_insert (str ''a/c/x'') (str ''a/c/x'')
          (Index_insert (str ''a/b/x'') (str ''a/b/x'') (new_Index identity_schema)))"

text \<open>\<open>index.indexSchema.<name>.getShortNameOf(id)\<close> for each id of a list.\<close>

definition shortNames :: "(jsstring, 'g, 't) index \<Rightarrow> jsstring \<Rightarrow> jsstring list \<Rightarrow> jsstring option list" where
  "shortNames idx name is =
     (case map_of (mapOfKeyObjects (indexSchema idx)) name of
        None \<Rightarrow> []
      | Some k \<Rightarrow> map (getShortNameOf (kdata k)) is)"

text \<open>Whether a target id is selected in a schema.\<close>

definition selected :: "('k, 'g) schema \<Rightarrow> nat \<Rightarrow> bool" where
  "selected sch i = (case selectedElements sch of None \<Rightarrow> True | Some sel \<Rightarrow> i \<in> set sel)"

text \<open>
  \<open>index.where.<name>.<operation>(value)...\<close>: a chain of filtering operations on
  the schema \<open>where\<close> returns; and the selection a chain ends with.
\<close>

definition where_query :: "('k::linorder, 'g, 't) index \<Rightarrow> (jsstring \<times> operation) list
    \<Rightarrow> index_error + ('k, 'g) schema" where
  "where_query idx chain =
     (case Index_where idx of Inl e \<Rightarrow> Inl e | Inr sch \<Rightarrow> query_chain chain sch)"

definition selection :: "index_error + ('k, 'g) schema \<Rightarrow> index_error + ids option" where
  "selection r = map_sum (\<lambda>e. e) selectedElements r"


text \<open>
  A class whose truthy key values are closed upwards in its order: every class of the
  source is one (the empty string is the only falsy string and the least one, and a
  \<open>SemVer\<close> object is always truthy).
\<close>

definition truthy_above :: "'k::linorder key_class \<Rightarrow> bool" where
  "truthy_above c = (\<forall>a b. keyTruthy c a \<longrightarrow> a \<le> b \<longrightarrow> keyTruthy c b)"

text \<open>
  An index serialized and then deserialized into a new index of the same constructor:
  \<open>new Index(c).deserialize(index.serialize())\<close>.
\<close>

definition round_trip :: "('k::linorder, 'g, 't) index \<Rightarrow> (index_error + ('k, 'g, 't) index) option" where
  "round_trip idx = Index_deserialize (Index_serialize idx) (new_Index (indexConstructor idx))"

text \<open>
  An index of one target under a \<open>StringKey\<close> named \<open>name\<close> whose accessor returns
  the target's name, which is the string \<open>__proto__\<close>.
\<close>

definition proto_index :: "(jsstring, jsstring, jsstring) index" where
  "proto_index =
     Index_insert (str ''__proto__'') (str ''t0'')
       (new_Index (new_schema [new_Key StringKey AScalar (str ''name'') []]))"

section \<open>The index as objects in a store\<close>

text \<open>
  In the definitions above an index is a value, so a query on the schema \<open>where\<close>
  returns cannot change the index it came from. In the program the index, its schema, the
  keys, their trees and the sets of target ids are objects that refer to each other, and
  \<open>cloneKey\<close> lets the trees of a clone refer to the very sets of the original. This
  section has the same classes over a store of objects, for \<open>where\<close> and the
  filtering operations: a field that holds an object holds its address, an assignment to
  a field writes the object at an address, and \<open>new\<close> adds an object to the store.
\<close>

subsection \<open>Objects\<close>

type_synonym addr = nat

text \<open>
  What the constructor of a schema class declares for each of its keys: the class of the
  key, the accessor and the \<open>protoIdentity\<close> (its first element and the rest). The
  schema classes are written by the users of \<open>Index\<close>; the list of these
  declarations stands for \<open>indexConstructor\<close>.
\<close>

record ('k, 'g) key_decl =
  d_cls :: "'k key_class"
  d_accessor :: "'g \<Rightarrow> 'k accessed"
  d_identity :: jsstring
  d_alternatives :: "jsstring list"

text \<open>
  The objects. A \<open>Set\<close> of target ids; the tree \<open>values\<close>, whose entries hold
  the address of a set; a tree with string keys (\<open>words\<close> and \<open>identities\<close>);
  the \<open>Map\<close> of short names; the array of targets; a key, which has the fields
  \<open>identities\<close> and \<open>idShortName\<close> when it is an \<open>IdentityKey\<close>; a schema
  with its map from names to keys; an index.
\<close>

record ('k, 'g) key_obj =
  o_cls :: "'k key_class"
  o_accessor :: "'g \<Rightarrow> 'k accessed"
  o_identity :: jsstring
  o_alternativeIdentities :: "jsstring list"
  o_values :: addr
  o_words :: addr
  o_identities :: "addr option"
  o_idShortName :: "addr option"
  o_indexSchema :: addr

record schema_obj =
  o_index :: addr
  o_mapOfKeyObjects :: "(jsstring \<times> addr) list"
  o_selectedElements :: "addr option"

record ('k, 'g) index_obj =
  o_indexConstructor :: "('k, 'g) key_decl list"
  o_schema :: addr
  o_indexOfTargets :: addr

datatype ('k, 'g, 't) obj =
    SetObj ids
  | ValuesObj "('k \<times> addr) list"
  | WordsObj "(jsstring \<times> addr) list"
  | MapObj "(jsstring \<times> jsstring) list"
  | ArrayObj "'t list"
  | KeyObj "('k, 'g) key_obj"
  | SchemaObj schema_obj
  | IndexObj "('k, 'g) index_obj"

text \<open>
  The store is the list of the objects made so far, and the address of an object is its
  position: \<open>new\<close> appends, and nothing is ever removed.
\<close>

type_synonym ('k, 'g, 't) store = "('k, 'g, 't) obj list"

definition alloc :: "('k, 'g, 't) obj \<Rightarrow> ('k, 'g, 't) store \<Rightarrow> addr \<times> ('k, 'g, 't) store" where
  "alloc ob h = (length h, h @ [ob])"

definition deref :: "('k, 'g, 't) store \<Rightarrow> addr \<Rightarrow> ('k, 'g, 't) obj option" where
  "deref h a = (if a < length h then Some (h ! a) else None)"

text \<open>The object at an address, when it is one of the expected kind.\<close>

definition key_at :: "('k, 'g, 't) store \<Rightarrow> addr \<Rightarrow> ('k, 'g) key_obj option" where
  "key_at h a = (case deref h a of Some (KeyObj ko) \<Rightarrow> Some ko | _ \<Rightarrow> None)"

definition schema_at :: "('k, 'g, 't) store \<Rightarrow> addr \<Rightarrow> schema_obj option" where
  "schema_at h a = (case deref h a of Some (SchemaObj so) \<Rightarrow> Some so | _ \<Rightarrow> None)"

definition index_at :: "('k, 'g, 't) store \<Rightarrow> addr \<Rightarrow> ('k, 'g) index_obj option" where
  "index_at h a = (case deref h a of Some (IndexObj io) \<Rightarrow> Some io | _ \<Rightarrow> None)"

text \<open>
  The contents of a set, a tree, a map and an array at an address (empty when there is no
  such object there, which no store the constructors build has), and the data of a key
  and the selection of a schema read through their addresses.
\<close>

definition set_at :: "('k, 'g, 't) store \<Rightarrow> addr \<Rightarrow> ids" where
  "set_at h a = (case deref h a of Some (SetObj s) \<Rightarrow> s | _ \<Rightarrow> [])"

definition values_at :: "('k, 'g, 't) store \<Rightarrow> addr \<Rightarrow> ('k \<times> ids) list" where
  "values_at h a =
     (case deref h a of Some (ValuesObj es) \<Rightarrow> map (\<lambda>(k, s). (k, set_at h s)) es | _ \<Rightarrow> [])"

definition words_at :: "('k, 'g, 't) store \<Rightarrow> addr \<Rightarrow> (jsstring \<times> ids) list" where
  "words_at h a =
     (case deref h a of Some (WordsObj es) \<Rightarrow> map (\<lambda>(k, s). (k, set_at h s)) es | _ \<Rightarrow> [])"

definition map_at :: "('k, 'g, 't) store \<Rightarrow> addr \<Rightarrow> (jsstring \<times> jsstring) list" where
  "map_at h a = (case deref h a of Some (MapObj m) \<Rightarrow> m | _ \<Rightarrow> [])"

definition read_key :: "('k, 'g, 't) store \<Rightarrow> ('k, 'g) key_obj \<Rightarrow> 'k keydata" where
  "read_key h ko =
     \<lparr>identity = o_identity ko, alternativeIdentities = o_alternativeIdentities ko,
      kvalues = values_at h (o_values ko), kwords = words_at h (o_words ko),
      identities = (case o_identities ko of None \<Rightarrow> [] | Some a \<Rightarrow> words_at h a),
      idShortName = (case o_idShortName ko of None \<Rightarrow> [] | Some a \<Rightarrow> map_at h a)\<rparr>"

definition read_selected :: "('k, 'g, 't) store \<Rightarrow> schema_obj \<Rightarrow> ids option" where
  "read_selected h so = map_option (set_at h) (o_selectedElements so)"
definition array_at :: "('k, 'g, 't) store \<Rightarrow> addr \<Rightarrow> 't list" where
  "array_at h a = (case deref h a of Some (ArrayObj ts) \<Rightarrow> ts | _ \<Rightarrow> [])"

text \<open>An assignment to fields of the key, the schema or the index at an address.\<close>

definition update_key :: "addr \<Rightarrow> (('k, 'g) key_obj \<Rightarrow> ('k, 'g) key_obj) \<Rightarrow> ('k, 'g, 't) store
    \<Rightarrow> ('k, 'g, 't) store" where
  "update_key a f h = (case key_at h a of Some ko \<Rightarrow> h[a := KeyObj (f ko)] | None \<Rightarrow> h)"

definition update_schema :: "addr \<Rightarrow> (schema_obj \<Rightarrow> schema_obj) \<Rightarrow> ('k, 'g, 't) store
    \<Rightarrow> ('k, 'g, 't) store" where
  "update_schema a f h = (case schema_at h a of Some so \<Rightarrow> h[a := SchemaObj (f so)] | None \<Rightarrow> h)"

definition update_index :: "addr \<Rightarrow> (('k, 'g) index_obj \<Rightarrow> ('k, 'g) index_obj) \<Rightarrow> ('k, 'g, 't) store
    \<Rightarrow> ('k, 'g, 't) store" where
  "update_index a f h = (case index_at h a of Some io \<Rightarrow> h[a := IndexObj (f io)] | None \<Rightarrow> h)"

subsection \<open>Constructors\<close>

text \<open>\<open>IdentityKey\<close> is the one class with the method \<open>nameOrShortNameIs\<close>.\<close>

definition isIdentityKey :: "'k key_class \<Rightarrow> bool" where
  "isIdentityKey c = (nameOrShortNameIs c \<noteq> None)"

text \<open>
  \<open>new <class>(schema, accessor, protoIdentity)\<close>: the field initializers make the
  empty trees (and the empty map of an \<open>IdentityKey\<close>), and the constructor of
  \<open>Key\<close> stores the schema in the key and the key in \<open>mapOfKeyObjects\<close> of the
  schema.
\<close>

definition store_new_Key :: "addr \<Rightarrow> ('k, 'g) key_decl \<Rightarrow> ('k, 'g, 't) store \<Rightarrow> ('k, 'g, 't) store" where
  "store_new_Key sa dc h =
     (let (va, h1) = alloc (ValuesObj []) h;
          (wa, h2) = alloc (WordsObj []) h1;
          (ia, h3) = (if isIdentityKey (d_cls dc) then map_prod Some (\<lambda>x. x) (alloc (WordsObj []) h2)
                      else (None, h2));
          (ma, h4) = (if isIdentityKey (d_cls dc) then map_prod Some (\<lambda>x. x) (alloc (MapObj []) h3)
                      else (None, h3));
          (ka, h5) = alloc (KeyObj \<lparr>o_cls = d_cls dc, o_accessor = d_accessor dc,
                         o_identity = d_identity dc,
                         o_alternativeIdentities = d_identity dc # d_alternatives dc,
                         o_values = va, o_words = wa, o_identities = ia, o_idShortName = ma,
                         o_indexSchema = sa\<rparr>) h4
      in update_schema sa
           (\<lambda>so. so\<lparr>o_mapOfKeyObjects := map_set (d_identity dc) ka (o_mapOfKeyObjects so)\<rparr>) h5)"

text \<open>
  \<open>new Index(indexConstructor)\<close>: the index with its empty array of targets, and
  \<open>new indexConstructor(this)\<close>, a schema with nothing selected that constructs its
  keys. The address of the index is returned with the store.
\<close>

definition store_new_Index :: "('k, 'g) key_decl list \<Rightarrow> ('k, 'g, 't) store \<Rightarrow> addr \<times> ('k, 'g, 't) store" where
  "store_new_Index ctor h =
     (let this = length h; targets = length h + 1; sch = length h + 2;
          h1 = h @ [IndexObj \<lparr>o_indexConstructor = ctor, o_schema = sch, o_indexOfTargets = targets\<rparr>,
                    ArrayObj [],
                    SchemaObj \<lparr>o_index = this, o_mapOfKeyObjects = [], o_selectedElements = None\<rparr>]
      in (this, fold (store_new_Key sch) ctor h1))"

subsection \<open>where\<close>

text \<open>
  \<open>greedyClone()\<close> of the package sorted-btree, which is not part of the repository:
  a new tree with the entries of this one. The values of the entries are not copied, so
  the new tree refers to the same sets.
\<close>

definition greedyClone :: "addr \<Rightarrow> ('k, 'g, 't) store \<Rightarrow> (index_error + addr) \<times> ('k, 'g, 't) store" where
  "greedyClone t h =
     (case deref h t of
        Some (ValuesObj es) \<Rightarrow> map_prod Inr (\<lambda>x. x) (alloc (ValuesObj es) h)
      | Some (WordsObj es) \<Rightarrow> map_prod Inr (\<lambda>x. x) (alloc (WordsObj es) h)
      | _ \<Rightarrow> (Inl TypeError, h))"

text \<open>
  \<open>Key.cloneKey(from)\<close> and \<open>IdentityKey.cloneKey(from)\<close>, field by field; the
  error when \<open>from\<close> lacks a field that is read. \<open>store_cloneKey\<close> is the call
  \<open>this.cloneKey(from)\<close>, which runs the method of the class of \<open>this\<close>.
\<close>

definition store_Key_cloneKey :: "addr \<Rightarrow> addr \<Rightarrow> ('k, 'g, 't) store \<Rightarrow> index_error option \<times> ('k, 'g, 't) store" where
  "store_Key_cloneKey this from h =
     (case key_at h from of
        None \<Rightarrow> (Some TypeError, h)
      | Some fo \<Rightarrow>
          (case greedyClone (o_values fo) h of
             (Inl e, h1) \<Rightarrow> (Some e, h1)
           | (Inr va, h1) \<Rightarrow>
               (let h2 = update_key this (\<lambda>ko. ko\<lparr>o_values := va\<rparr>) h1
                in case key_at h2 from of
                     None \<Rightarrow> (Some TypeError, h2)
                   | Some fo2 \<Rightarrow>
                       (case greedyClone (o_words fo2) h2 of
                          (Inl e, h3) \<Rightarrow> (Some e, h3)
                        | (Inr wa, h3) \<Rightarrow> (None, update_key this (\<lambda>ko. ko\<lparr>o_words := wa\<rparr>) h3)))))"

definition store_IdentityKey_cloneKey :: "addr \<Rightarrow> addr \<Rightarrow> ('k, 'g, 't) store
    \<Rightarrow> index_error option \<times> ('k, 'g, 't) store" where
  "store_IdentityKey_cloneKey this from h =
     (case store_Key_cloneKey this from h of
        (Some e, h1) \<Rightarrow> (Some e, h1)
      | (None, h1) \<Rightarrow>
          (case Option.bind (key_at h1 from) o_identities of
             None \<Rightarrow> (Some TypeError, h1)
           | Some fi \<Rightarrow>
               (case greedyClone fi h1 of
                  (Inl e, h2) \<Rightarrow> (Some e, h2)
                | (Inr ia, h2) \<Rightarrow>
                    (let h3 = update_key this (\<lambda>ko. ko\<lparr>o_identities := Some ia\<rparr>) h2;
                         (ma, h4) = alloc (MapObj (case Option.bind (key_at h3 from) o_idShortName of
                                                     None \<Rightarrow> [] | Some fm \<Rightarrow> map_at h3 fm)) h3
                     in (None, update_key this (\<lambda>ko. ko\<lparr>o_idShortName := Some ma\<rparr>) h4)))))"

definition store_cloneKey :: "addr \<Rightarrow> addr \<Rightarrow> ('k, 'g, 't) store \<Rightarrow> index_error option \<times> ('k, 'g, 't) store" where
  "store_cloneKey this from h =
     (case key_at h this of
        None \<Rightarrow> (Some TypeError, h)
      | Some ko \<Rightarrow>
          if isIdentityKey (o_cls ko) then store_IdentityKey_cloneKey this from h
          else store_Key_cloneKey this from h)"

text \<open>
  \<open>get where()\<close>: a new index of the same constructor, which is given the array of
  targets of this one; then, for each entry \<open>[key, impl]\<close> of this index's
  \<open>mapOfKeyObjects\<close>, the key of that name in the new schema clones \<open>impl\<close>.
  The address of the new schema is returned.
\<close>

fun store_clone_keys :: "(jsstring \<times> addr) list \<Rightarrow> addr \<Rightarrow> ('k, 'g, 't) store
    \<Rightarrow> index_error option \<times> ('k, 'g, 't) store" where
  "store_clone_keys [] sch h = (None, h)"
| "store_clone_keys ((key, impl) # r) sch h =
     (case Option.bind (schema_at h sch) (\<lambda>so. map_of (o_mapOfKeyObjects so) key) of
        None \<Rightarrow> (Some TypeError, h)
      | Some k \<Rightarrow>
          (case store_cloneKey k impl h of
             (Some e, h1) \<Rightarrow> (Some e, h1)
           | (None, h1) \<Rightarrow> store_clone_keys r sch h1))"

definition store_where :: "addr \<Rightarrow> ('k, 'g, 't) store \<Rightarrow> (index_error + addr) \<times> ('k, 'g, 't) store" where
  "store_where this h =
     (case index_at h this of
        None \<Rightarrow> (Inl TypeError, h)
      | Some io \<Rightarrow>
          (let (index, h1) = store_new_Index (o_indexConstructor io) h;
               h2 = update_index index (\<lambda>n. n\<lparr>o_indexOfTargets := o_indexOfTargets io\<rparr>) h1
           in case (Option.bind (index_at h2 this) (\<lambda>m. schema_at h2 (o_schema m)),
                    map_option o_schema (index_at h2 index)) of
                (Some so, Some sch) \<Rightarrow>
                  (case store_clone_keys (o_mapOfKeyObjects so) sch h2 of
                     (Some e, h3) \<Rightarrow> (Inl e, h3)
                   | (None, h3) \<Rightarrow> (Inr sch, h3))
              | _ \<Rightarrow> (Inl TypeError, h2)))"

subsection \<open>Filtering\<close>

text \<open>
  \<open>IndexSchema.filter(idsToKeep)\<close> on the schema at an address: the new selection is
  a new set in either branch, and the schema is made to refer to it.
\<close>

definition store_filter :: "addr \<Rightarrow> nat list \<Rightarrow> ('k, 'g, 't) store \<Rightarrow> ('k, 'g, 't) store" where
  "store_filter sch idsToKeep h =
     (case schema_at h sch of
        None \<Rightarrow> h
      | Some so \<Rightarrow>
          (case o_selectedElements so of
             Some sel \<Rightarrow>
               (let (selected, h1) = alloc (SetObj (foldl (\<lambda>selected each.
                                         if each \<in> set (set_at h sel) then set_add each selected else selected)
                                       [] idsToKeep)) h
                in update_schema sch (\<lambda>s. s\<lparr>o_selectedElements := Some selected\<rparr>) h1)
           | None \<Rightarrow>
               (let (selected, h1) = alloc (SetObj (new_Set idsToKeep)) h
                in update_schema sch (\<lambda>s. s\<lparr>o_selectedElements := Some selected\<rparr>) h1)))"

text \<open>
  A filtering operation of the key at an address. What it passes to \<open>filter\<close> is
  computed from the data of the key and the selection of \<open>this.indexSchema\<close>, as
  \<open>operation_ids\<close> gives it: the operations only read the trees and the sets, and the
  sets they build for themselves are passed to \<open>filter\<close>, which copies what it is
  given. \<open>filter\<close> is called on \<open>this.indexSchema\<close>, which is also what the
  operation returns.
\<close>

definition store_operation :: "addr \<Rightarrow> operation \<Rightarrow> ('k::linorder, 'g, 't) store
    \<Rightarrow> (index_error + addr) \<times> ('k, 'g, 't) store" where
  "store_operation k op h =
     (case key_at h k of
        None \<Rightarrow> (Inl TypeError, h)
      | Some ko \<Rightarrow>
          (case schema_at h (o_indexSchema ko) of
             None \<Rightarrow> (Inl TypeError, h)
           | Some so \<Rightarrow>
               (case operation_ids (o_cls ko) (read_key h ko) (read_selected h so) op of
                  Inl e \<Rightarrow> (Inl e, h)
                | Inr None \<Rightarrow> (Inr (o_indexSchema ko), h)
                | Inr (Some idsToKeep) \<Rightarrow>
                    (Inr (o_indexSchema ko), store_filter (o_indexSchema ko) idsToKeep h))))"

text \<open>
  \<open>schema.<name>.<operation>(value)\<close>, a chain of such calls, and
  \<open>index.where.<name>.<operation>(value)...\<close>. The store is returned also when a
  call throws.
\<close>

definition store_query_key :: "jsstring \<Rightarrow> operation \<Rightarrow> addr \<Rightarrow> ('k::linorder, 'g, 't) store
    \<Rightarrow> (index_error + addr) \<times> ('k, 'g, 't) store" where
  "store_query_key name op sch h =
     (case Option.bind (schema_at h sch) (\<lambda>so. map_of (o_mapOfKeyObjects so) name) of
        None \<Rightarrow> (Inl TypeError, h)
      | Some k \<Rightarrow> store_operation k op h)"

fun store_query_chain :: "(jsstring \<times> operation) list \<Rightarrow> addr \<Rightarrow> ('k::linorder, 'g, 't) store
    \<Rightarrow> (index_error + addr) \<times> ('k, 'g, 't) store" where
  "store_query_chain [] sch h = (Inr sch, h)"
| "store_query_chain ((name, op) # r) sch h =
     (case store_query_key name op sch h of
        (Inl e, h1) \<Rightarrow> (Inl e, h1)
      | (Inr sch1, h1) \<Rightarrow> store_query_chain r sch1 h1)"

definition store_where_query :: "addr \<Rightarrow> (jsstring \<times> operation) list \<Rightarrow> ('k::linorder, 'g, 't) store
    \<Rightarrow> (index_error + addr) \<times> ('k, 'g, 't) store" where
  "store_where_query this chain h =
     (case store_where this h of
        (Inl e, h1) \<Rightarrow> (Inl e, h1)
      | (Inr sch, h1) \<Rightarrow> store_query_chain chain sch h1)"

subsection \<open>What an index holds\<close>

text \<open>
  What can be read from the index at an address: its targets, the selection of its schema
  and, for every name of the schema, the data of the key, with the contents of the sets
  in its trees.
\<close>

definition read_schema :: "('k, 'g, 't) store \<Rightarrow> addr
    \<Rightarrow> (ids option \<times> (jsstring \<times> 'k keydata option) list) option" where
  "read_schema h a =
     map_option
       (\<lambda>so. (read_selected h so,
              map (\<lambda>(name, k). (name, map_option (read_key h) (key_at h k))) (o_mapOfKeyObjects so)))
       (schema_at h a)"

definition read_index :: "('k, 'g, 't) store \<Rightarrow> addr
    \<Rightarrow> ('t list \<times> (ids option \<times> (jsstring \<times> 'k keydata option) list) option) option" where
  "read_index h a =
     map_option (\<lambda>io. (array_at h (o_indexOfTargets io), read_schema h (o_schema io))) (index_at h a)"

text \<open>
  A store is closed when every address held by one of its objects is the address of an
  object of the store.
\<close>

definition obj_closed :: "nat \<Rightarrow> ('k, 'g, 't) obj \<Rightarrow> bool" where
  "obj_closed m ob =
     (case ob of
        ValuesObj es \<Rightarrow> list_all (\<lambda>p. snd p < m) es
      | WordsObj es \<Rightarrow> list_all (\<lambda>p. snd p < m) es
      | KeyObj ko \<Rightarrow>
          o_values ko < m \<and> o_words ko < m \<and> o_indexSchema ko < m
          \<and> (case o_identities ko of None \<Rightarrow> True | Some a \<Rightarrow> a < m)
          \<and> (case o_idShortName ko of None \<Rightarrow> True | Some a \<Rightarrow> a < m)
      | SchemaObj so \<Rightarrow>
          o_index so < m \<and> list_all (\<lambda>p. snd p < m) (o_mapOfKeyObjects so)
          \<and> (case o_selectedElements so of None \<Rightarrow> True | Some a \<Rightarrow> a < m)
      | IndexObj io \<Rightarrow> o_schema io < m \<and> o_indexOfTargets io < m
      | _ \<Rightarrow> True)"

definition closed :: "('k, 'g, 't) store \<Rightarrow> bool" where
  "closed h = list_all (obj_closed (length h)) h"

text \<open>
  The addresses from \<open>n\<close> on are a region of their own when every key there belongs
  to a schema there, every schema there has its keys there and every index there has its
  schema there; \<open>extends n h h'\<close> says that \<open>h'\<close> has the objects of \<open>h\<close>
  below \<open>n\<close> as they are and such a region above.
\<close>

definition obj_ok :: "nat \<Rightarrow> ('k, 'g, 't) obj \<Rightarrow> bool" where
  "obj_ok n ob =
     (case ob of
        KeyObj ko \<Rightarrow> n \<le> o_indexSchema ko
      | SchemaObj so \<Rightarrow> list_all (\<lambda>p. n \<le> snd p) (o_mapOfKeyObjects so)
      | IndexObj io \<Rightarrow> n \<le> o_schema io
      | _ \<Rightarrow> True)"

definition owns :: "nat \<Rightarrow> ('k, 'g, 't) store \<Rightarrow> bool" where
  "owns n h = (\<forall>a. n \<le> a \<longrightarrow> a < length h \<longrightarrow> obj_ok n (h ! a))"

definition extends :: "nat \<Rightarrow> ('k, 'g, 't) store \<Rightarrow> ('k, 'g, 't) store \<Rightarrow> bool" where
  "extends n h h' = (n \<le> length h' \<and> take n h' = take n h \<and> owns n h')"

text \<open>
  The store of an index of one target \<open>t0\<close> with the two tags \<open>a\<close> and
  \<open>b\<close>, under a \<open>StringKey\<close> named \<open>tags\<close>: the index at the address 0, its
  schema at 2, the key at 5.
\<close>

definition tags_store :: "(jsstring, jsstring list, jsstring) store" where
  "tags_store =
     [IndexObj \<lparr>o_indexConstructor =
          [\<lparr>d_cls = StringKey, d_accessor = AList, d_identity = str ''tags'', d_alternatives = []\<rparr>],
        o_schema = 2, o_indexOfTargets = 1\<rparr>,
      ArrayObj [str ''t0''],
      SchemaObj \<lparr>o_index = 0, o_mapOfKeyObjects = [(str ''tags'', 5)], o_selectedElements = None\<rparr>,
      ValuesObj [(str ''a'', 6), (str ''b'', 7)],
      WordsObj [(str ''a'', 8), (str ''b'', 9)],
      KeyObj \<lparr>o_cls = StringKey, o_accessor = AList, o_identity = str ''tags'',
        o_alternativeIdentities = [str ''tags''], o_values = 3, o_words = 4,
        o_identities = None, o_idShortName = None, o_indexSchema = 2\<rparr>,
      SetObj [0], SetObj [0], SetObj [0], SetObj [0]]"

section \<open>Properties of the evaluator\<close>


lemma str_false_nonempty: "str ''false'' \<noteq> []"
  by (simp add: str_def)




section \<open>Properties of the index\<close>

lemma add_word_entry_frame [simp]:
  "kvalues (add_word_entry n s d) = kvalues d"
  "identities (add_word_entry n s d) = identities d"
  "idShortName (add_word_entry n s d) = idShortName d"
  by (simp_all add: add_word_entry_def)

lemma fold_add_word_entry_frame:
  "kvalues (fold (add_word_entry n) ws d) = kvalues d \<and>
   identities (fold (add_word_entry n) ws d) = identities d \<and>
   idShortName (fold (add_word_entry n) ws d) = idShortName d"
  by (induction ws arbitrary: d) simp_all

lemma Key_addWord_frame [simp]:
  "kvalues (Key_addWord f each n d) = kvalues d"
  "identities (Key_addWord f each n d) = identities d"
  "idShortName (Key_addWord f each n d) = idShortName d"
  by (simp_all add: Key_addWord_def fold_add_word_entry_frame)

lemma IdentityKey_methods:
  "addWord IdentityKey = Key_addWord (\<lambda>k. k)"
  "keyTruthy IdentityKey = (\<lambda>k. k \<noteq> [])"
  "doneInsertion IdentityKey = IdentityKey_doneInsertion"
  by (simp_all add: IdentityKey_def StringKey_def)

text \<open>
  C4. After the three targets with the identities \<open>a/b/x\<close>, \<open>a/c/x\<close> and
  \<open>a/b/y\<close> have been inserted, \<open>doneInsertion\<close> returns, and \<open>getShortNameOf\<close>
  gives the short names \<open>b/x\<close>, \<open>c/x\<close> and \<open>y\<close> for them, no two of which are
  the same.
\<close>

theorem three_identities_short_names:
  "map_option (\<lambda>idx. shortNames idx (str ''id'') [str ''a/b/x'', str ''a/c/x'', str ''a/b/y''])
     (Index_doneInsertion three_identities)
   = Some [Some (str ''b/x''), Some (str ''c/x''), Some (str ''y'')]
   \<and> distinct [str ''b/x'', str ''c/x'', str ''y'']"
  by (simp add: shortNames_def Index_doneInsertion_def three_identities_def Index_insert_def
      new_Index_def identity_schema_def new_schema_def new_Key_def Key_insert_def
      Key_insertKey_def Key_addKey_def IdentityKey_methods bt_get_def set_add_def
      IdentityKey_doneInsertion_def shortName_loop.simps shortName_step_def shortName_def
      map_delete_def getShortNameOf_def str_def Let_def)

subsection \<open>Sets of ids\<close>

lemma set_set_add [simp]: "set (set_add n s) = insert n (set s)"
  by (auto simp: set_add_def)

lemma set_foldl_set_add: "set (foldl (\<lambda>s n. set_add n s) acc xs) = set acc \<union> set xs"
  by (induction xs arbitrary: acc) auto

lemma set_new_Set [simp]: "set (new_Set xs) = set xs"
  by (simp add: new_Set_def set_foldl_set_add)

lemma set_fold_set_add [simp]: "set (fold set_add v s) = set v \<union> set s"
  by (induction v arbitrary: s) auto

lemma set_foldl_keep:
  "set (foldl (\<lambda>selected each. if each \<in> S then set_add each selected else selected) acc xs)
     = set acc \<union> (S \<inter> set xs)"
  by (induction xs arbitrary: acc) auto



subsection \<open>The selection only shrinks\<close>

lemma narrow_selected:
  assumes "narrow r sch = Inr sch'" "selectedElements sch = Some sel"
  shows "\<exists>sel'. selectedElements sch' = Some sel' \<and> set sel' \<subseteq> set sel"
  using assms
  by (auto simp: narrow_def IndexSchema_filter_def filter_selected_def set_foldl_keep
      split: sum.splits option.splits)

text \<open>
  C7. Once the selected set of a schema is defined, \<open>filter(idsToKeep)\<close> replaces it
  by its intersection with \<open>idsToKeep\<close>, and every filtering operation of a key of the
  schema that returns leaves a subset of it: no id is ever gained.
\<close>

theorem filter_only_shrinks:
  assumes "selectedElements sch = Some sel"
  shows "(\<exists>sel'. selectedElements (IndexSchema_filter idsToKeep sch) = Some sel'
            \<and> set sel' = set sel \<inter> set idsToKeep)
       \<and> (\<forall>name op sch'. query_key name op sch = Inr sch' \<longrightarrow>
            (\<exists>sel'. selectedElements sch' = Some sel' \<and> set sel' \<subseteq> set sel))"
proof
  show "\<exists>sel'. selectedElements (IndexSchema_filter idsToKeep sch) = Some sel'
            \<and> set sel' = set sel \<inter> set idsToKeep"
    using assms by (simp add: IndexSchema_filter_def filter_selected_def set_foldl_keep)
  show "\<forall>name op sch'. query_key name op sch = Inr sch' \<longrightarrow>
            (\<exists>sel'. selectedElements sch' = Some sel' \<and> set sel' \<subseteq> set sel)"
    using assms by (auto simp: query_key_def split: option.splits dest: narrow_selected)
qed

theorem filter_only_shrinks_witness:
  "selectedElements ((new_schema [] :: (jsstring, jsstring) schema)\<lparr>selectedElements := Some [0, 1, 2]\<rparr>)
     = Some [0, 1, 2]
   \<and> selectedElements
       (IndexSchema_filter [1, 5]
          ((new_schema [] :: (jsstring, jsstring) schema)\<lparr>selectedElements := Some [0, 1, 2]\<rparr>))
     = Some [1]"
  using filter_only_shrinks
    [of "(new_schema [] :: (jsstring, jsstring) schema)\<lparr>selectedElements := Some [0, 1, 2]\<rparr>"
      "[0, 1, 2]" "[1, 5]"]
  by (simp add: IndexSchema_filter_def filter_selected_def set_add_def)

subsection \<open>Range queries\<close>

lemma truthy_above_StringKey: "truthy_above StringKey"
  by (auto simp: truthy_above_def StringKey_def)

lemma truthy_above_IdentityKey: "truthy_above IdentityKey"
  by (auto simp: truthy_above_def StringKey_def IdentityKey_def)

lemma truthy_above_SemverKey: "truthy_above (SemverKey p v r)"
  by (auto simp: truthy_above_def SemverKey_def Let_def)










lemma StringKey_methods:
  "addWord StringKey = Key_addWord (\<lambda>k. k)"
  "keyTruthy StringKey = (\<lambda>k. k \<noteq> [])"
  "doneInsertion StringKey = Some"
  "cloneKey StringKey = Key_cloneKey"
  "coerce StringKey = Inr"
  by (simp_all add: StringKey_def)





text \<open>
  The condition on the least key in \<open>range_queries\<close> is needed. A target with the
  tags \<open>''\<close> and \<open>a\<close> is stored under the empty string, which a \<open>StringKey\<close>
  orders first and which is falsy: the guard \<open>min && ...\<close> of \<open>lessThan\<close> skips
  the range, and \<open>lessThan("b")\<close> selects nothing, though the target is stored under
  \<open>a\<close>, which is below \<open>b\<close>.
\<close>

lemma lessThan_falsy_least_key:
  "selection (where_query
       (Index_insert [[], str ''a''] (str ''t0'')
          (new_Index (new_schema [new_Key StringKey AList (str ''tags'') []])))
       [(str ''tags'', LessThan (Some (str ''b'')))]) = Inr (Some [])
   \<and> selection (where_query
       (Index_insert [[], str ''a''] (str ''t0'')
          (new_Index (new_schema [new_Key StringKey AList (str ''tags'') []])))
       [(str ''tags'', Equals (Some (str ''a'')))]) = Inr (Some [0])"
  by (simp add: selection_def where_query_def Index_insert_def new_Index_def new_schema_def new_Key_def
      Key_insert_def Key_insertKey_def Key_addKey_def StringKey_methods bt_get_def set_add_def str_def
      Index_where_def Key_cloneKey_def query_key_def operation_ids_def lessThan_ids_def equals_ids_def
      minKey_def forRange_def collect_ids_def narrow_def IndexSchema_filter_def filter_selected_def
      new_Set_def or_empty_def)

subsection \<open>Serialization\<close>

text \<open>
  C5 fails for a key value whose string is \<open>__proto__\<close>. In the index
  \<open>proto_index\<close>, for which \<open>doneInsertion\<close> does nothing, the query
  \<open>where.name.equals('__proto__')\<close> selects the target 0. \<open>serialize\<close> assigns
  the ids to \<open>result.keys['__proto__']\<close>, which creates no property, so the index
  read back has no key value (and no word) at all, and the same query selects nothing.
\<close>

theorem proto_key_lost:
  "Index_doneInsertion proto_index = Some proto_index
   \<and> selection (where_query proto_index [(str ''name'', Equals (Some (str ''__proto__'')))])
       = Inr (Some [0])
   \<and> round_trip proto_index
       = Some (Inr ((new_Index (indexConstructor proto_index))\<lparr>indexOfTargets := [str ''t0'']\<rparr>))
   \<and> selection (where_query ((new_Index (indexConstructor proto_index))\<lparr>indexOfTargets := [str ''t0'']\<rparr>)
         [(str ''name'', Equals (Some (str ''__proto__'')))])
       = Inr (Some [])"
  by (simp add: proto_index_def Index_insert_def new_Index_def new_schema_def new_Key_def
      Key_insert_def Key_insertKey_def StringKey_methods Key_addKey_def set_add_def str_def bt_get_def
      Index_doneInsertion_def where_query_def selection_def Index_where_def Key_cloneKey_def
      query_key_def operation_ids_def equals_ids_def narrow_def IndexSchema_filter_def
      filter_selected_def or_empty_def new_Set_def
      round_trip_def Index_deserialize_def Index_serialize_def IndexSchema_serialize_def StringKey_def
      Key_serialize_def obj_set_def Key_deserialize_def
      Key_addWord_def word_runs_def split_nonword_def isWordChar_def add_word_entry_def)

section \<open>Properties of the store\<close>

subsection \<open>The region of a clone\<close>

lemma extends_refl: "n \<le> length h \<Longrightarrow> owns n h \<Longrightarrow> extends n h h"
  by (simp add: extends_def)

lemma extends_trans: "extends n h h1 \<Longrightarrow> extends n h1 h2 \<Longrightarrow> extends n h h2"
  by (simp add: extends_def)

lemma extendsD: "extends n h h' \<Longrightarrow> n \<le> length h' \<and> owns n h'"
  by (simp add: extends_def)

lemma owns_append: "owns n h \<Longrightarrow> obj_ok n ob \<Longrightarrow> owns n (h @ [ob])"
  by (auto simp: owns_def nth_append)

lemma ownsD: "owns n h \<Longrightarrow> n \<le> a \<Longrightarrow> a < length h \<Longrightarrow> obj_ok n (h ! a)"
  by (simp add: owns_def)

lemma owns_update:
  assumes "owns n h" "obj_ok n ob"
  shows "owns n (h[a := ob])"
  unfolding owns_def
proof (intro allI impI)
  fix b
  assume "n \<le> b" "b < length (h[a := ob])"
  then show "obj_ok n (h[a := ob] ! b)"
    using assms ownsD [of n h b] by (cases "b = a") simp_all
qed

lemma extends_alloc:
  assumes "n \<le> length h" "owns n h" "obj_ok n ob"
  shows "extends n h (snd (alloc ob h))"
  using assms by (simp add: extends_def alloc_def owns_append)

lemma extends_append:
  assumes "n \<le> length h" "owns n h" "obj_ok n ob"
  shows "extends n h (h @ [ob])"
  using assms by (simp add: extends_def owns_append)

lemma key_atD: "key_at h a = Some ko \<Longrightarrow> a < length h \<and> h ! a = KeyObj ko"
  by (auto simp: key_at_def deref_def split: if_splits option.splits obj.splits)

lemma schema_atD: "schema_at h a = Some so \<Longrightarrow> a < length h \<and> h ! a = SchemaObj so"
  by (auto simp: schema_at_def deref_def split: if_splits option.splits obj.splits)

lemma index_atD: "index_at h a = Some io \<Longrightarrow> a < length h \<and> h ! a = IndexObj io"
  by (auto simp: index_at_def deref_def split: if_splits option.splits obj.splits)

lemma owns_key: "owns n h \<Longrightarrow> n \<le> a \<Longrightarrow> key_at h a = Some ko \<Longrightarrow> n \<le> o_indexSchema ko"
  using ownsD [of n h a] by (auto simp: obj_ok_def dest!: key_atD)

lemma owns_schema:
  "owns n h \<Longrightarrow> n \<le> a \<Longrightarrow> schema_at h a = Some so \<Longrightarrow> map_of (o_mapOfKeyObjects so) name = Some k
   \<Longrightarrow> n \<le> k"
proof -
  assume a: "owns n h" "n \<le> a" "schema_at h a = Some so" "map_of (o_mapOfKeyObjects so) name = Some k"
  from a(3) have b: "a < length h" "h ! a = SchemaObj so" by (auto dest: schema_atD)
  from a(1,2) b have "obj_ok n (h ! a)" using ownsD [of n h a] by simp
  then have "list_all (\<lambda>p. n \<le> snd p) (o_mapOfKeyObjects so)" using b by (simp add: obj_ok_def)
  moreover from a(4) have "(name, k) \<in> set (o_mapOfKeyObjects so)" by (rule map_of_SomeD)
  ultimately show ?thesis by (auto simp: list_all_iff)
qed

lemma extends_update_key:
  assumes "n \<le> length h" "owns n h" "n \<le> a"
    and "\<And>ko. o_indexSchema (f ko) = o_indexSchema ko"
  shows "extends n h (update_key a f h)"
proof (cases "key_at h a")
  case None
  then show ?thesis using assms by (simp add: update_key_def extends_def)
next
  case (Some ko)
  then have "n \<le> o_indexSchema ko" using assms owns_key by blast
  then have "owns n (h[a := KeyObj (f ko)])"
    using assms(2) by (intro owns_update) (simp_all add: obj_ok_def assms(4))
  then show ?thesis using assms Some by (simp add: update_key_def extends_def)
qed

lemma extends_update_schema:
  assumes "n \<le> length h" "owns n h" "n \<le> a"
    and "\<And>so. list_all (\<lambda>p. n \<le> snd p) (o_mapOfKeyObjects so)
           \<Longrightarrow> list_all (\<lambda>p. n \<le> snd p) (o_mapOfKeyObjects (f so))"
  shows "extends n h (update_schema a f h)"
proof (cases "schema_at h a")
  case None
  then show ?thesis using assms by (simp add: update_schema_def extends_def)
next
  case (Some so)
  then have "a < length h" "h ! a = SchemaObj so" by (auto dest: schema_atD)
  then have "list_all (\<lambda>p. n \<le> snd p) (o_mapOfKeyObjects so)"
    using assms(2,3) ownsD [of n h a] by (simp add: obj_ok_def)
  then have "list_all (\<lambda>p. n \<le> snd p) (o_mapOfKeyObjects (f so))" by (rule assms(4))
  then have "owns n (h[a := SchemaObj (f so)])"
    using assms(2) by (intro owns_update) (simp_all add: obj_ok_def)
  then show ?thesis using assms Some by (simp add: update_schema_def extends_def)
qed

lemma owns_index: "owns n h \<Longrightarrow> n \<le> a \<Longrightarrow> index_at h a = Some io \<Longrightarrow> n \<le> o_schema io"
  using ownsD [of n h a] by (auto simp: obj_ok_def dest!: index_atD)

lemma extends_update_index:
  assumes "n \<le> length h" "owns n h" "n \<le> a"
    and "\<And>io. o_schema (f io) = o_schema io"
  shows "extends n h (update_index a f h)"
proof (cases "index_at h a")
  case None
  then show ?thesis using assms by (simp add: update_index_def extends_def)
next
  case (Some io)
  then have "n \<le> o_schema io" using assms owns_index by blast
  then have "owns n (h[a := IndexObj (f io)])"
    using assms(2) by (intro owns_update) (simp_all add: obj_ok_def assms(4))
  then show ?thesis using assms Some by (simp add: update_index_def extends_def)
qed

lemma list_all_map_set: "list_all P m \<Longrightarrow> P (k, v) \<Longrightarrow> list_all P (map_set k v m)"
  by (induction m) auto

lemma extends_new_Key:
  assumes "n \<le> length h" "owns n h" "n \<le> sa"
  shows "extends n h (store_new_Key sa dc h)"
proof -
  let ?h1 = "h @ [ValuesObj []]"
  let ?h2 = "?h1 @ [WordsObj []]"
  let ?h3 = "if isIdentityKey (d_cls dc) then ?h2 @ [WordsObj []] else ?h2"
  let ?h4 = "if isIdentityKey (d_cls dc) then ?h3 @ [MapObj []] else ?h3"
  have e1: "extends n h ?h1" using assms by (intro extends_append) (simp_all add: obj_ok_def)
  have e2: "extends n ?h1 ?h2"
    using extendsD [OF e1] by (intro extends_append) (simp_all add: obj_ok_def)
  have e3: "extends n ?h2 ?h3"
  proof (cases "isIdentityKey (d_cls dc)")
    case True
    have "extends n ?h2 (?h2 @ [WordsObj []])"
      using extendsD [OF e2] by (intro extends_append) (simp_all add: obj_ok_def)
    then show ?thesis using True by simp
  next
    case False
    then show ?thesis using extendsD [OF e2] by (simp add: extends_refl)
  qed
  have e4: "extends n ?h3 ?h4"
  proof (cases "isIdentityKey (d_cls dc)")
    case True
    have "extends n ?h3 (?h3 @ [MapObj []])"
      using extendsD [OF e3] by (intro extends_append) (simp_all add: obj_ok_def)
    then show ?thesis using True by simp
  next
    case False
    then show ?thesis using extendsD [OF e3] by (simp add: extends_refl)
  qed
  have e: "extends n h ?h4" using e1 e2 e3 e4 by (blast intro: extends_trans)
  have k: "n \<le> length ?h4" using extendsD [OF e] by simp
  have e5: "extends n ?h4 (?h4 @ [KeyObj ko])" if "o_indexSchema ko = sa" for ko :: "('a, 'b) key_obj"
    using extendsD [OF e] that assms(3) by (intro extends_append) (simp_all add: obj_ok_def)
  have e6: "extends n h' (update_schema sa
      (\<lambda>so. so\<lparr>o_mapOfKeyObjects := map_set (d_identity dc) (length ?h4) (o_mapOfKeyObjects so)\<rparr>) h')"
    if "extends n ?h4 h'" for h' :: "('a, 'b, 'c) store"
    using extendsD [OF that] assms(3) k
    by (intro extends_update_schema) (simp_all add: list_all_map_set)
  let ?ko = "\<lparr>o_cls = d_cls dc, o_accessor = d_accessor dc, o_identity = d_identity dc,
      o_alternativeIdentities = d_identity dc # d_alternatives dc,
      o_values = length h, o_words = Suc (length h),
      o_identities = (if isIdentityKey (d_cls dc) then Some (Suc (Suc (length h))) else None),
      o_idShortName = (if isIdentityKey (d_cls dc) then Some (Suc (Suc (Suc (length h)))) else None),
      o_indexSchema = sa\<rparr>"
  have s: "store_new_Key sa dc h = update_schema sa
      (\<lambda>so. so\<lparr>o_mapOfKeyObjects := map_set (d_identity dc) (length ?h4) (o_mapOfKeyObjects so)\<rparr>)
      (?h4 @ [KeyObj ?ko])"
    by (simp add: store_new_Key_def alloc_def Let_def)
  have "extends n ?h4 (?h4 @ [KeyObj ?ko])" by (rule e5) simp
  from extends_trans [OF e extends_trans [OF this e6 [OF this]]]
  show ?thesis unfolding s .
qed

lemma extends_fold_new_Key:
  "n \<le> length h \<Longrightarrow> owns n h \<Longrightarrow> n \<le> sa \<Longrightarrow> extends n h (fold (store_new_Key sa) ctor h)"
proof (induction ctor arbitrary: h)
  case Nil
  then show ?case by (simp add: extends_refl)
next
  case (Cons dc ctor)
  have a: "extends n h (store_new_Key sa dc h)" using Cons.prems by (rule extends_new_Key)
  have "extends n (store_new_Key sa dc h) (fold (store_new_Key sa) ctor (store_new_Key sa dc h))"
    using extendsD [OF a] Cons.prems(3) by (intro Cons.IH) simp_all
  with a show ?case by (auto intro: extends_trans)
qed

lemma extends_new_Index:
  assumes "n \<le> length h" "owns n h"
  shows "extends n h (snd (store_new_Index ctor h))" and "n \<le> fst (store_new_Index ctor h)"
proof -
  let ?io = "IndexObj \<lparr>o_indexConstructor = ctor, o_schema = length h + 2,
      o_indexOfTargets = length h + 1\<rparr> :: ('a, 'b, 'c) obj"
  let ?so = "SchemaObj \<lparr>o_index = length h, o_mapOfKeyObjects = [], o_selectedElements = None\<rparr>
      :: ('a, 'b, 'c) obj"
  let ?h1 = "h @ [?io]"
  let ?h2 = "?h1 @ [ArrayObj []]"
  let ?h3 = "?h2 @ [?so]"
  have e1: "extends n h ?h1" using assms by (intro extends_append) (simp_all add: obj_ok_def)
  have e2: "extends n ?h1 ?h2"
    using extendsD [OF e1] by (intro extends_append) (simp_all add: obj_ok_def)
  have e3: "extends n ?h2 ?h3"
    using extendsD [OF e2] by (intro extends_append) (simp_all add: obj_ok_def)
  have e: "extends n h ?h3" using e1 e2 e3 by (blast intro: extends_trans)
  have "extends n ?h3 (fold (store_new_Key (length h + 2)) ctor ?h3)"
    using extendsD [OF e] assms(1) by (intro extends_fold_new_Key) simp_all
  with e have "extends n h (fold (store_new_Key (length h + 2)) ctor ?h3)"
    by (rule extends_trans)
  then show "extends n h (snd (store_new_Index ctor h))"
    by (simp add: store_new_Index_def Let_def)
  show "n \<le> fst (store_new_Index ctor h)"
    using assms(1) by (simp add: store_new_Index_def Let_def)
qed

lemma extends_greedyClone:
  assumes "n \<le> length h" "owns n h"
  shows "extends n h (snd (greedyClone t h))"
  using assms
  by (auto simp: greedyClone_def alloc_def obj_ok_def extends_refl
      intro!: extends_append split: option.splits obj.splits)

lemma extends_Key_cloneKey:
  assumes "n \<le> length h" "owns n h" "n \<le> this"
  shows "extends n h (snd (store_Key_cloneKey this from h))"
proof (cases "key_at h from")
  case None
  then show ?thesis using assms by (simp add: store_Key_cloneKey_def extends_refl)
next
  case (Some fo)
  obtain r1 h1 where g1: "greedyClone (o_values fo) h = (r1, h1)" by (cases "greedyClone (o_values fo) h")
  have e1: "extends n h h1" using extends_greedyClone [OF assms(1,2), of "o_values fo"] g1 by simp
  show ?thesis
  proof (cases r1)
    case (Inl e)
    then show ?thesis using Some g1 e1 by (simp add: store_Key_cloneKey_def)
  next
    case (Inr va)
    let ?h2 = "update_key this (\<lambda>ko. ko\<lparr>o_values := va\<rparr>) h1"
    have e2: "extends n h1 ?h2"
      using extendsD [OF e1] assms(3) by (intro extends_update_key) simp_all
    have e12: "extends n h ?h2" using e1 e2 by (rule extends_trans)
    show ?thesis
    proof (cases "key_at ?h2 from")
      case None
      then show ?thesis using Some g1 Inr e12 by (simp add: store_Key_cloneKey_def)
    next
      case fo2: (Some fo2)
      obtain r3 h3 where g3: "greedyClone (o_words fo2) ?h2 = (r3, h3)"
        by (cases "greedyClone (o_words fo2) ?h2")
      have e3: "extends n ?h2 h3"
        using extends_greedyClone [of n ?h2 "o_words fo2"] extendsD [OF e12] g3 by simp
      have e13: "extends n h h3" using e12 e3 by (rule extends_trans)
      have e4: "extends n h3 (update_key this (\<lambda>ko. ko\<lparr>o_words := wa\<rparr>) h3)" for wa
        using extendsD [OF e13] assms(3) by (intro extends_update_key) simp_all
      show ?thesis
        using Some g1 Inr fo2 g3 e13 extends_trans [OF e13 e4]
        by (cases r3) (simp_all add: store_Key_cloneKey_def)
    qed
  qed
qed

lemma extends_IdentityKey_cloneKey:
  assumes "n \<le> length h" "owns n h" "n \<le> this"
  shows "extends n h (snd (store_IdentityKey_cloneKey this from h))"
proof -
  obtain r1 h1 where g1: "store_Key_cloneKey this from h = (r1, h1)"
    by (cases "store_Key_cloneKey this from h")
  have e1: "extends n h h1" using extends_Key_cloneKey [OF assms, of "from"] g1 by simp
  show ?thesis
  proof (cases r1)
    case (Some e)
    then show ?thesis using g1 e1 by (simp add: store_IdentityKey_cloneKey_def)
  next
    case None
    show ?thesis
    proof (cases "Option.bind (key_at h1 from) o_identities")
      case n2: None
      then show ?thesis using g1 None e1 by (simp add: store_IdentityKey_cloneKey_def)
    next
      case (Some fi)
      obtain r2 h2 where g2: "greedyClone fi h1 = (r2, h2)" by (cases "greedyClone fi h1")
      have e2: "extends n h1 h2" using extends_greedyClone [of n h1 fi] extendsD [OF e1] g2 by simp
      have e12: "extends n h h2" using e1 e2 by (rule extends_trans)
      show ?thesis
      proof (cases r2)
        case (Inl e)
        then show ?thesis using g1 None Some g2 e12 by (simp add: store_IdentityKey_cloneKey_def)
      next
        case (Inr ia)
        let ?h3 = "update_key this (\<lambda>ko. ko\<lparr>o_identities := Some ia\<rparr>) h2"
        have e3: "extends n h2 ?h3"
          using extendsD [OF e12] assms(3) by (intro extends_update_key) simp_all
        have e13: "extends n h ?h3" using e12 e3 by (rule extends_trans)
        have e4: "extends n ?h3 (?h3 @ [MapObj m])" for m
          using extendsD [OF e13] by (intro extends_append) (simp_all add: obj_ok_def)
        have e14: "extends n h (?h3 @ [MapObj m])" for m using e13 e4 by (rule extends_trans)
        have e5: "extends n (?h3 @ [MapObj m]) (update_key this (\<lambda>ko. ko\<lparr>o_idShortName := Some ma\<rparr>) (?h3 @ [MapObj m]))"
          for m ma
          using extendsD [OF e14] assms(3) by (intro extends_update_key) simp_all
        show ?thesis
          using g1 None Some g2 Inr extends_trans [OF e14 e5]
          by (simp add: store_IdentityKey_cloneKey_def alloc_def Let_def)
      qed
    qed
  qed
qed

lemma extends_cloneKey:
  assumes "n \<le> length h" "owns n h" "n \<le> this"
  shows "extends n h (snd (store_cloneKey this from h))"
  using assms extends_Key_cloneKey [OF assms] extends_IdentityKey_cloneKey [OF assms]
  by (simp add: store_cloneKey_def extends_refl split: option.splits)

lemma extends_clone_keys:
  "n \<le> length h \<Longrightarrow> owns n h \<Longrightarrow> n \<le> sch \<Longrightarrow> extends n h (snd (store_clone_keys es sch h))"
proof (induction es arbitrary: h)
  case Nil
  then show ?case by (simp add: extends_refl)
next
  case (Cons p es)
  obtain key impl where p: "p = (key, impl)" by (cases p)
  show ?case
  proof (cases "Option.bind (schema_at h sch) (\<lambda>so. map_of (o_mapOfKeyObjects so) key)")
    case None
    then show ?thesis using Cons.prems p by (simp add: extends_refl)
  next
    case (Some k)
    then obtain so where so: "schema_at h sch = Some so" "map_of (o_mapOfKeyObjects so) key = Some k"
      by (auto simp: bind_eq_Some_conv)
    have k: "n \<le> k" using owns_schema [OF Cons.prems(2,3) so] .
    obtain r1 h1 where g1: "store_cloneKey k impl h = (r1, h1)" by (cases "store_cloneKey k impl h")
    have e1: "extends n h h1" using extends_cloneKey [OF Cons.prems(1,2) k, of impl] g1 by simp
    have "extends n h1 (snd (store_clone_keys es sch h1))"
      using extendsD [OF e1] Cons.prems(3) by (intro Cons.IH) simp_all
    with e1 have "extends n h (snd (store_clone_keys es sch h1))" by (rule extends_trans)
    then show ?thesis using p Some g1 e1 by (cases r1) simp_all
  qed
qed

lemma extends_where:
  assumes "n \<le> length h" "owns n h"
  shows "extends n h (snd (store_where this h))"
    and "fst (store_where this h) = Inr sch \<Longrightarrow> n \<le> sch"
proof -
  show "extends n h (snd (store_where this h))"
  proof (cases "index_at h this")
    case None
    then show ?thesis using assms by (simp add: store_where_def extends_refl)
  next
    case (Some io)
    obtain index h1 where g1: "store_new_Index (o_indexConstructor io) h = (index, h1)"
      by (cases "store_new_Index (o_indexConstructor io) h")
    have e1: "extends n h h1" and i: "n \<le> index"
      using extends_new_Index [OF assms, of "o_indexConstructor io"] g1 by simp_all
    let ?h2 = "update_index index (\<lambda>n. n\<lparr>o_indexOfTargets := o_indexOfTargets io\<rparr>) h1"
    have e2: "extends n h1 ?h2" using extendsD [OF e1] i by (intro extends_update_index) simp_all
    have e12: "extends n h ?h2" using e1 e2 by (rule extends_trans)
    have e3: "extends n h (snd (store_clone_keys es s ?h2))"
      if "index_at ?h2 index = Some nio" "s = o_schema nio" for es s nio
    proof -
      have "n \<le> s" using owns_index [of n ?h2 index nio] extendsD [OF e12] i that by simp
      then have "extends n ?h2 (snd (store_clone_keys es s ?h2))"
        using extendsD [OF e12] by (intro extends_clone_keys) simp_all
      with e12 show ?thesis by (rule extends_trans)
    qed
    show ?thesis
    proof (cases "Option.bind (index_at ?h2 this) (\<lambda>m. schema_at ?h2 (o_schema m))")
      case None
      then show ?thesis using Some g1 e12 by (simp add: store_where_def)
    next
      case so: (Some so)
      show ?thesis
      proof (cases "index_at ?h2 index")
        case None
        then show ?thesis using Some g1 so e12 by (simp add: store_where_def)
      next
        case nio: (Some nio)
        have "extends n h (snd (store_clone_keys (o_mapOfKeyObjects so) (o_schema nio) ?h2))"
          by (rule e3 [OF nio refl])
        then show ?thesis
          using Some g1 so nio
          by (auto simp: store_where_def split: prod.splits option.splits)
      qed
    qed
  qed
  show "n \<le> sch" if "fst (store_where this h) = Inr sch"
  proof (cases "index_at h this")
    case None
    then show ?thesis using that by (simp add: store_where_def)
  next
    case (Some io)
    obtain index h1 where g1: "store_new_Index (o_indexConstructor io) h = (index, h1)"
      by (cases "store_new_Index (o_indexConstructor io) h")
    have e1: "extends n h h1" and i: "n \<le> index"
      using extends_new_Index [OF assms, of "o_indexConstructor io"] g1 by simp_all
    let ?h2 = "update_index index (\<lambda>n. n\<lparr>o_indexOfTargets := o_indexOfTargets io\<rparr>) h1"
    have e2: "extends n h1 ?h2" using extendsD [OF e1] i by (intro extends_update_index) simp_all
    have "n \<le> o_schema nio" if "index_at ?h2 index = Some nio" for nio
      using owns_index [of n ?h2 index nio] extendsD [OF e2] i that by simp
    then show ?thesis
      using Some g1 that
      by (auto simp: store_where_def Let_def split: option.splits prod.splits)
  qed
qed

lemma extends_filter:
  assumes "n \<le> length h" "owns n h" "n \<le> sch"
  shows "extends n h (store_filter sch idsToKeep h)"
proof -
  have "extends n h (update_schema sch (\<lambda>s. s\<lparr>o_selectedElements := Some a\<rparr>) (h @ [SetObj x]))"
    for a x
  proof -
    have e1: "extends n h (h @ [SetObj x])" using assms by (intro extends_append) (simp_all add: obj_ok_def)
    have "extends n (h @ [SetObj x])
        (update_schema sch (\<lambda>s. s\<lparr>o_selectedElements := Some a\<rparr>) (h @ [SetObj x]))"
      using extendsD [OF e1] assms(3) by (intro extends_update_schema) simp_all
    with e1 show ?thesis by (rule extends_trans)
  qed
  then show ?thesis
    using assms by (simp add: store_filter_def alloc_def extends_refl split: option.splits)
qed

lemma extends_operation:
  assumes "n \<le> length h" "owns n h" "n \<le> k"
  shows "extends n h (snd (store_operation k op h))"
    and "fst (store_operation k op h) = Inr sch \<Longrightarrow> n \<le> sch"
proof -
  have s: "n \<le> o_indexSchema ko" if "key_at h k = Some ko" for ko
    using owns_key [OF assms(2,3) that] .
  show "extends n h (snd (store_operation k op h))"
    using assms s extends_filter [OF assms(1,2)]
    by (auto simp: store_operation_def extends_refl split: option.splits sum.splits)
  show "n \<le> sch" if "fst (store_operation k op h) = Inr sch"
    using that s
    by (auto simp: store_operation_def split: option.splits sum.splits)
qed

lemma extends_query_key:
  assumes "n \<le> length h" "owns n h" "n \<le> sch"
  shows "extends n h (snd (store_query_key name op sch h))"
    and "fst (store_query_key name op sch h) = Inr sch' \<Longrightarrow> n \<le> sch'"
proof -
  have k: "n \<le> k" if "Option.bind (schema_at h sch) (\<lambda>so. map_of (o_mapOfKeyObjects so) name) = Some k" for k
    using that owns_schema [OF assms(2,3)] by (auto simp: bind_eq_Some_conv)
  show "extends n h (snd (store_query_key name op sch h))"
    using assms k extends_operation(1) [OF assms(1,2)]
    by (auto simp: store_query_key_def extends_refl split: option.splits)
  show "n \<le> sch'" if "fst (store_query_key name op sch h) = Inr sch'"
    using that k extends_operation(2) [OF assms(1,2)]
    by (auto simp: store_query_key_def split: option.splits)
qed

lemma extends_query_chain:
  "n \<le> length h \<Longrightarrow> owns n h \<Longrightarrow> n \<le> sch \<Longrightarrow> extends n h (snd (store_query_chain chain sch h))"
proof (induction chain arbitrary: sch h)
  case Nil
  then show ?case by (simp add: extends_refl)
next
  case (Cons p chain)
  obtain name op where p: "p = (name, op)" by (cases p)
  obtain r1 h1 where g1: "store_query_key name op sch h = (r1, h1)"
    by (cases "store_query_key name op sch h")
  have e1: "extends n h h1" using extends_query_key(1) [OF Cons.prems, of name op] g1 by simp
  show ?case
  proof (cases r1)
    case (Inl e)
    then show ?thesis using p g1 e1 by simp
  next
    case (Inr sch1)
    have "n \<le> sch1" using extends_query_key(2) [OF Cons.prems, of name op sch1] g1 Inr by simp
    then have "extends n h1 (snd (store_query_chain chain sch1 h1))"
      using extendsD [OF e1] by (intro Cons.IH) simp_all
    with e1 have "extends n h (snd (store_query_chain chain sch1 h1))" by (rule extends_trans)
    then show ?thesis using p g1 Inr by simp
  qed
qed

subsection \<open>The objects of the original\<close>

lemma owns_length: "owns (length h) h"
  by (simp add: owns_def)
lemma where_query_frame:
  "take (length h) (snd (store_where_query this chain h)) = h"
proof -
  obtain r1 h1 where g1: "store_where this h = (r1, h1)" by (cases "store_where this h")
  have e1: "extends (length h) h h1"
    using extends_where(1) [of "length h" h this] owns_length [of h] g1 by simp
  have "extends (length h) h (snd (store_where_query this chain h))"
  proof (cases r1)
    case (Inl e)
    then show ?thesis using g1 e1 by (simp add: store_where_query_def)
  next
    case (Inr sch)
    have "length h \<le> sch"
      using extends_where(2) [of "length h" h this sch] owns_length [of h] g1 Inr by simp
    then have "extends (length h) h1 (snd (store_query_chain chain sch h1))"
      using extendsD [OF e1] by (intro extends_query_chain) simp_all
    with e1 have "extends (length h) h (snd (store_query_chain chain sch h1))"
      by (rule extends_trans)
    then show ?thesis using g1 Inr by (simp add: store_where_query_def)
  qed
  then show ?thesis by (simp add: extends_def)
qed

lemma closedD: "closed h \<Longrightarrow> a < length h \<Longrightarrow> obj_closed (length h) (h ! a)"
  by (simp add: closed_def list_all_length)

lemma deref_old:
  assumes "take (length h) h' = h" "a < length h"
  shows "deref h' a = deref h a"
proof -
  have "length (take (length h) h') = length h" by (simp only: assms(1))
  then have l: "length h \<le> length h'" by simp
  have "take (length h) h' ! a = h' ! a" using assms(2) by (rule nth_take)
  then have "h ! a = h' ! a" by (simp only: assms(1))
  then show ?thesis using assms(2) l by (simp add: deref_def)
qed

lemma set_at_old: "take (length h) h' = h \<Longrightarrow> a < length h \<Longrightarrow> set_at h' a = set_at h a"
  by (simp add: set_at_def deref_old)

lemma array_at_old: "take (length h) h' = h \<Longrightarrow> a < length h \<Longrightarrow> array_at h' a = array_at h a"
  by (simp add: array_at_def deref_old)

lemma map_at_old: "take (length h) h' = h \<Longrightarrow> a < length h \<Longrightarrow> map_at h' a = map_at h a"
  by (simp add: map_at_def deref_old)

lemma key_at_old: "take (length h) h' = h \<Longrightarrow> a < length h \<Longrightarrow> key_at h' a = key_at h a"
  by (simp add: key_at_def deref_old)

lemma schema_at_old: "take (length h) h' = h \<Longrightarrow> a < length h \<Longrightarrow> schema_at h' a = schema_at h a"
  by (simp add: schema_at_def deref_old)

lemma index_at_old: "take (length h) h' = h \<Longrightarrow> a < length h \<Longrightarrow> index_at h' a = index_at h a"
  by (simp add: index_at_def deref_old)

lemma sets_old:
  assumes "take (length h) h' = h" "list_all (\<lambda>p. snd p < length h) es"
  shows "map (\<lambda>(k, s). (k, set_at h' s)) es = map (\<lambda>(k, s). (k, set_at h s)) es"
proof (rule map_cong [OF refl])
  fix p
  assume "p \<in> set es"
  then have "snd p < length h" using assms(2) by (simp add: list_all_iff)
  then have "set_at h' (snd p) = set_at h (snd p)" using assms(1) by (simp add: set_at_old)
  then show "(case p of (k, s) \<Rightarrow> (k, set_at h' s)) = (case p of (k, s) \<Rightarrow> (k, set_at h s))"
    by (cases p) simp
qed

lemma values_at_old:
  assumes "take (length h) h' = h" "closed h" "a < length h"
  shows "values_at h' a = values_at h a"
proof -
  have c: "obj_closed (length h) (h ! a)" using assms(2,3) by (rule closedD)
  have d: "deref h' a = deref h a" using assms(1,3) by (rule deref_old)
  have e: "deref h a = Some (h ! a)" using assms(3) by (simp add: deref_def)
  show ?thesis
  proof (cases "h ! a")
    case (ValuesObj es)
    then have "list_all (\<lambda>p. snd p < length h) es" using c by (simp add: obj_closed_def)
    then show ?thesis
      using ValuesObj sets_old [OF assms(1)] by (simp add: values_at_def d e)
  qed (simp_all add: values_at_def d e)
qed

lemma words_at_old:
  assumes "take (length h) h' = h" "closed h" "a < length h"
  shows "words_at h' a = words_at h a"
proof -
  have c: "obj_closed (length h) (h ! a)" using assms(2,3) by (rule closedD)
  have d: "deref h' a = deref h a" using assms(1,3) by (rule deref_old)
  have e: "deref h a = Some (h ! a)" using assms(3) by (simp add: deref_def)
  show ?thesis
  proof (cases "h ! a")
    case (WordsObj es)
    then have "list_all (\<lambda>p. snd p < length h) es" using c by (simp add: obj_closed_def)
    then show ?thesis
      using WordsObj sets_old [OF assms(1)] by (simp add: words_at_def d e)
  qed (simp_all add: words_at_def d e)
qed

lemma read_key_old:
  assumes "take (length h) h' = h" "closed h" "key_at h a = Some ko"
  shows "read_key h' ko = read_key h ko"
proof -
  have a: "a < length h" "h ! a = KeyObj ko" using assms(3) by (auto dest: key_atD)
  have "obj_closed (length h) (h ! a)" using assms(2) a(1) by (rule closedD)
  then show ?thesis
    using a(2) assms(1,2)
    by (auto simp: read_key_def obj_closed_def values_at_old words_at_old map_at_old
        split: option.splits)
qed

lemma read_schema_old:
  assumes "take (length h) h' = h" "closed h" "a < length h"
  shows "read_schema h' a = read_schema h a"
proof (cases "schema_at h a")
  case None
  then show ?thesis using assms by (simp add: read_schema_def schema_at_old)
next
  case (Some so)
  have c: "obj_closed (length h) (h ! a)" using assms(2,3) by (rule closedD)
  have so: "h ! a = SchemaObj so" using Some by (auto dest: schema_atD)
  have s: "read_selected h' so = read_selected h so"
    using c so assms(1) by (auto simp: read_selected_def obj_closed_def set_at_old split: option.splits)
  have k: "map_option (read_key h') (key_at h' k) = map_option (read_key h) (key_at h k)"
    if "k < length h" for k
    using that assms(1,2) read_key_old [OF assms(1,2), of k]
    by (cases "key_at h k") (simp_all add: key_at_old)
  have "map (\<lambda>(name, k). (name, map_option (read_key h') (key_at h' k))) (o_mapOfKeyObjects so)
      = map (\<lambda>(name, k). (name, map_option (read_key h) (key_at h k))) (o_mapOfKeyObjects so)"
    using c so k by (auto simp: obj_closed_def list_all_iff)
  then show ?thesis using Some s assms by (simp add: read_schema_def schema_at_old)
qed

lemma read_index_old:
  assumes "take (length h) h' = h" "closed h" "a < length h"
  shows "read_index h' a = read_index h a"
proof (cases "index_at h a")
  case None
  then show ?thesis using assms by (simp add: read_index_def index_at_old)
next
  case (Some io)
  have c: "obj_closed (length h) (h ! a)" using assms(2,3) by (rule closedD)
  have io: "h ! a = IndexObj io" using Some by (auto dest: index_atD)
  show ?thesis
    using Some c io assms
    by (simp add: read_index_def index_at_old obj_closed_def array_at_old read_schema_old)
qed

lemma where_query_failed: "index_at h this = None \<Longrightarrow> snd (store_where_query this chain h) = h"
  by (simp add: store_where_query_def store_where_def)
text \<open>
  C6. After \<open>index.where\<close> and any chain of filtering operations on the schema it
  returns, whether the chain ends or throws, every object the store held before is as it
  was: the index, its schema with its \<open>selectedElements\<close>, its keys, their trees and
  the sets in them. So whatever is read from the index in a closed store is the same
  before and after: the targets, the selection of its schema (still \<open>undefined\<close>
  when it was), and the entries of \<open>values\<close> and \<open>words\<close> of each key.
\<close>

theorem where_leaves_master_unchanged:
  "take (length h) (snd (store_where_query this chain h)) = h
   \<and> (closed h \<longrightarrow> read_index (snd (store_where_query this chain h)) this = read_index h this)"
proof -
  have t: "take (length h) (snd (store_where_query this chain h)) = h" by (rule where_query_frame)
  have "read_index (snd (store_where_query this chain h)) this = read_index h this" if "closed h"
  proof (cases "index_at h this")
    case None
    then show ?thesis by (simp add: where_query_failed)
  next
    case (Some io)
    then have "this < length h" by (auto dest: index_atD)
    with t that show ?thesis by (rule read_index_old)
  qed
  with t show ?thesis by simp
qed
text \<open>
  In the store \<open>tags_store\<close>, \<open>index.where.tags.equals('a').tags.startsWith('b')\<close>
  returns the new schema at the address 12, which has the target 0 selected, while the
  schema of the index has nothing selected, as before.
\<close>

theorem where_leaves_master_unchanged_witness:
  "closed tags_store
   \<and> read_index (snd (store_where_query 0
          [(str ''tags'', Equals (Some (str ''a''))), (str ''tags'', StartsWith (Some (str ''b'')))]
          tags_store)) 0
       = read_index tags_store 0
   \<and> fst (store_where_query 0
          [(str ''tags'', Equals (Some (str ''a''))), (str ''tags'', StartsWith (Some (str ''b'')))]
          tags_store) = Inr 12
   \<and> map_option fst (read_schema (snd (store_where_query 0
          [(str ''tags'', Equals (Some (str ''a''))), (str ''tags'', StartsWith (Some (str ''b'')))]
          tags_store)) 12) = Some (Some [0])
   \<and> map_option fst (read_schema tags_store 2) = Some None"
  using where_leaves_master_unchanged [of tags_store 0
      "[(str ''tags'', Equals (Some (str ''a''))), (str ''tags'', StartsWith (Some (str ''b'')))]"]
  by (simp add: closed_def obj_closed_def read_schema_def
    tags_store_def store_where_query_def store_where_def index_at_def deref_def
    store_new_Index_def store_new_Key_def isIdentityKey_def StringKey_def alloc_def update_schema_def
    schema_at_def update_index_def store_cloneKey_def key_at_def store_Key_cloneKey_def greedyClone_def
    update_key_def store_query_key_def store_operation_def operation_ids_def equals_ids_def
    startsWith_ids_def startsWith_js_def
    read_key_def read_selected_def values_at_def words_at_def set_at_def bt_get_def or_empty_def
    store_filter_def new_Set_def set_add_def str_def)

section \<open>Properties of the scanner and the parser\<close>

lemmas scanner_defs = scan_def new_Scanner_def Let_def eof_def ch_def chNext_def chNextNext_def
  chSz_def chNextSz_def chNextNextSz_def codeAt_def charCodeAt_def codePointAt_def sizeOf_def
  isHighSurrogate_def isLowSurrogate_def whitespaceCase_def isWhiteSpaceSingleLine_def isDigit_def
  isHexDigit_def isBinaryDigit_def isLineBreak_def isIdentifierStart_def isIdentifierPart_def
  scanNumber_def skipDigits.simps skipWhitespace.simps scanWhitespace_def scanUntil_loop.simps
  scanUntil_def scanHexNumber_def scanBinaryNumber_def scanIdentifier_def scanString_def
  scanSingleLineComment_def scanMultiLineComment_def isConflictMarker_def keywords_map_def
  string_predicate_def advance_def advance1_def advance2_def advance3_def next_token_def
  newLine_def tokenOffset_def number_text_def truthy_def substring_def substr_def str_def
  take_token_def token.truncate_def

lemmas parser_defs = takeWhitespace.simps Expression_parse.simps Query_loop.simps Query_parse_def
  parseQuery_gen.simps QueryList_parse_def parseQuery_def

lemmas evaluator_defs = match_def isValid_def single_def expression_matches_def bare_espidf_def
  not_espidf_def espidf_token_def feature_def constant_val_def property_def js_or_def

subsection \<open>The query \<open>not espidf\<close>\<close>

text \<open>
  C2. \<open>parseQuery("not espidf")\<close> returns the query list of the one negated expression
  \<open>espidf\<close>; it matches the empty context and does not match \<open>{espidf: true}\<close>.
\<close>

theorem not_espidf_scenario:
  "parseQuery (str ''not espidf'') = Returns (single not_espidf)
   \<and> match (single not_espidf) Map.empty
   \<and> \<not> match (single not_espidf) (Map.empty(str ''espidf'' \<mapsto> VBoolean True))"
  by (simp add: scanner_defs parser_defs evaluator_defs)

subsection \<open>Errors are caught\<close>

text \<open>
  C3 (as the code has it). \<open>QueryList.parse\<close> never throws. When the first \<open>scan\<close>
  throws, or the generator \<open>parseQuery\<close> throws after it has yielded the queries
  \<open>qs\<close>, \<open>parse\<close> returns a \<open>QueryList\<close> that is not valid, whose \<open>error\<close> is
  the error thrown and whose \<open>queries\<close> are the queries yielded before it (none when
  the first \<open>scan\<close> threw).
\<close>

theorem parse_catches_errors:
  "(\<forall>e. parseQuery t \<noteq> Throws e)
   \<and> (\<forall>e. scan (new_Scanner t) = Throws e \<longrightarrow>
          parseQuery t = Returns \<lparr>queries = [], error = Some e\<rparr>)
   \<and> (\<forall>c qs e. scan (new_Scanner t) = Returns c \<and> parseQuery_gen c = (qs, Threw e) \<longrightarrow>
          parseQuery t = Returns \<lparr>queries = qs, error = Some e\<rparr>
          \<and> \<not> isValid \<lparr>queries = qs, error = Some e\<rparr>)"
  by (auto simp: parseQuery_def QueryList_parse_def isValid_def
      split: outcome.splits gen_end.splits prod.splits)

theorem parse_catches_errors_witness:
  "scan (new_Scanner (str ''feature:\"abc'')) =
     Returns \<lparr>t_offset = Some 0, t_kind = Some 71, t_text = Some (str ''feature''),
       t_stringValue = None, p_text = str ''feature:\"abc'', p_offset = 7\<rparr>
   \<and> parseQuery_gen \<lparr>t_offset = Some 0, t_kind = Some 71, t_text = Some (str ''feature''),
       t_stringValue = None, p_text = str ''feature:\"abc'', p_offset = 7\<rparr>
       = ([], Threw (UnexpectedEndOfFile [34]))
   \<and> parseQuery (str ''feature:\"abc'') =
       Returns \<lparr>queries = [], error = Some (UnexpectedEndOfFile [34])\<rparr>"
  using parse_catches_errors [of "str ''feature:\"abc''"]
  by (simp add: scanner_defs parser_defs)

text \<open>
  The claim C3 as stated says that the queries of the returned \<open>QueryList\<close> are empty
  whenever an error was raised. For the text \<open>a b\<close> the generator yields the query
  \<open>a\<close> before it throws at \<open>b\<close>, and the query stays in \<open>queries\<close>.
\<close>

theorem parse_error_keeps_queries_counterexample:
  "parseQuery (str ''a b'') =
     Returns \<lparr>queries = [\<lparr>expressions = [\<lparr>featureToken =
         \<lparr>t_offset = Some 0, t_kind = Some 71, t_text = Some (str ''a''), t_stringValue = None\<rparr>,
         constantToken = None, notted = False\<rparr>]\<rparr>],
       error = Some (ExpectedComma (Some (str ''b'')))\<rparr>"
  by (simp add: scanner_defs parser_defs)

text \<open>
  \<open>parse\<close> does not return for every text: at a merge conflict marker \<open>scan\<close> calls
  \<open>next(Kind.ConflictMarker, 7)\<close>, and \<open>advance(7)\<close> never returns.
\<close>

lemma conflict_marker_hangs: "parseQuery (str ''<<<<<<< x'') = Hangs"
  by (simp add: scanner_defs parser_defs)

subsection \<open>Binary literals\<close>

text \<open>
  C8. For the text \<open>0b1\<close> the claim expects one numeric literal with the text
  \<open>0b1\<close>. \<open>scan\<close> tests the character after \<open>0\<close> against \<open>B\<close> twice and never
  against \<open>b\<close>, so it calls \<open>scanNumber\<close>: the token is the numeric literal \<open>0\<close>,
  and the scanner stands before \<open>b1\<close>. The spelling \<open>0B1\<close> gives the literal \<open>0b1\<close>.
\<close>

theorem lowercase_binary_prefix:
  "scan (new_Scanner (str ''0b1'')) =
     Returns \<lparr>t_offset = Some 0, t_kind = Some 7, t_text = Some (str ''0''), t_stringValue = None,
       p_text = str ''0b1'', p_offset = 1\<rparr>
   \<and> scan (new_Scanner (str ''0B1'')) =
     Returns \<lparr>t_offset = Some 0, t_kind = Some 7, t_text = Some (str ''0b1''),
       t_stringValue = None, p_text = str ''0B1'', p_offset = 3\<rparr>"
  by (simp add: scanner_defs)

subsection \<open>White space only\<close>

lemma whitespace_code:
  assumes "whitespaceCase (Some u)"
  shows "sizeOf (Some u) = 1" "isWhiteSpaceSingleLine (Some u)" "u \<noteq> 13" "u \<noteq> 10"
  using assms by (auto simp: whitespaceCase_def sizeOf_def isHighSurrogate_def isWhiteSpaceSingleLine_def)

lemma ch_whitespace:
  assumes "p_offset s < length (p_text s)" "whitespaceCase (Some (p_text s ! p_offset s))"
  shows "ch s = Some (p_text s ! p_offset s)" "chSz s = 1"
  using assms whitespace_code(1) [OF assms(2)]
  by (simp_all add: ch_def chSz_def codeAt_def charCodeAt_def)

lemma ch_at_end: "length (p_text s) \<le> p_offset s \<Longrightarrow> ch s = None"
  by (simp add: ch_def codeAt_def charCodeAt_def sizeOf_def)

lemma chSz_at_end: "length (p_text s) \<le> p_offset s \<Longrightarrow> chSz s = 1"
  by (simp add: chSz_def charCodeAt_def sizeOf_def)

lemma skipWhitespace_all:
  assumes "p_offset s < length (p_text s)"
    and "\<forall>i. p_offset s \<le> i \<and> i < length (p_text s) \<longrightarrow> whitespaceCase (Some (p_text s ! i))"
  shows "skipWhitespace s = s\<lparr>p_offset := length (p_text s)\<rparr>"
  using assms
proof (induction s rule: skipWhitespace.induct)
  case (1 s)
  have w: "whitespaceCase (Some (p_text s ! p_offset s))" using "1.prems" by simp
  have a: "advance1 s = s\<lparr>p_offset := Suc (p_offset s)\<rparr>"
    using ch_whitespace(2) [OF "1.prems"(1) w] by (simp add: advance1_def)
  show ?case
  proof (cases "Suc (p_offset s) < length (p_text s)")
    case True
    have w': "whitespaceCase (Some (p_text s ! Suc (p_offset s)))" using "1.prems"(2) True by simp
    have c: "ch (advance1 s) = Some (p_text s ! Suc (p_offset s))"
      using ch_whitespace(1) [of "advance1 s"] True w' by (simp add: a)
    have i: "isWhiteSpaceSingleLine (ch (advance1 s))"
      using c whitespace_code(2) [OF w'] by simp
    have "skipWhitespace (advance1 s) = (advance1 s)\<lparr>p_offset := length (p_text (advance1 s))\<rparr>"
      using "1.IH" [OF refl i] True "1.prems"(2) by (simp add: a)
    then show ?thesis using i by (subst skipWhitespace.simps) (simp add: Let_def a)
  next
    case False
    then have e: "Suc (p_offset s) = length (p_text s)" using "1.prems"(1) by simp
    have "ch (advance1 s) = None" using e by (simp add: a ch_at_end)
    then have "\<not> isWhiteSpaceSingleLine (ch (advance1 s))" by (simp add: isWhiteSpaceSingleLine_def)
    then show ?thesis using e by (subst skipWhitespace.simps) (simp add: Let_def a)
  qed
qed

lemma scan_whitespace_text:
  assumes "t \<noteq> []" "\<forall>u \<in> set t. whitespaceCase (Some u)"
  shows "scan (new_Scanner t) =
     Returns \<lparr>t_offset = Some 0, t_kind = Some 5, t_text = Some t, t_stringValue = None,
       p_text = t, p_offset = length t\<rparr>"
proof -
  let ?s = "\<lparr>t_offset = Some 0, t_kind = None, t_text = None, t_stringValue = None,
       p_text = t, p_offset = 0\<rparr>"
  have w0: "whitespaceCase (Some (t ! 0))" using assms by (cases t) auto
  have c: "ch ?s = Some (t ! 0)" using ch_whitespace(1) [of ?s] assms(1) w0 by simp
  have k: "skipWhitespace ?s = ?s\<lparr>p_offset := length t\<rparr>"
    using skipWhitespace_all [of ?s] assms by simp
  show ?thesis
    using c w0 whitespace_code(3,4) [OF w0] assms(1) k
    by (simp add: scan_def new_Scanner_def Let_def eof_def scanWhitespace_def tokenOffset_def
        substring_def)
qed

lemma scan_at_end:
  assumes "p_offset s = length (p_text s)"
  shows "scan s = Returns (s\<lparr>t_offset := Some (length (p_text s)), t_stringValue := None,
      p_offset := Suc (length (p_text s)), t_text := Some [], t_kind := Some 0\<rparr>)"
proof -
  let ?s = "s\<lparr>t_offset := Some (p_offset s), t_stringValue := None\<rparr>"
  have c: "ch ?s = None" "chSz ?s = 1" using assms by (simp_all add: ch_at_end chSz_at_end)
  show ?thesis
    using c assms
    by (simp add: scan_def Let_def eof_def whitespaceCase_def isIdentifierStart_def
        next_token_def advance_def advance1_def substr_def)
qed

lemma parseQuery_empty: "parseQuery [] = Returns \<lparr>queries = [], error = None\<rparr>"
  by (simp add: parseQuery_def QueryList_parse_def scan_at_end new_Scanner_def
      parseQuery_gen.simps takeWhitespace.simps eof_def)

lemma parseQuery_whitespace:
  assumes "t \<noteq> []" "\<forall>u \<in> set t. whitespaceCase (Some u)"
  shows "parseQuery t = Returns \<lparr>queries = [], error = None\<rparr>"
proof -
  let ?s1 = "\<lparr>t_offset = Some 0, t_kind = Some 5, t_text = Some t, t_stringValue = None,
       p_text = t, p_offset = length t\<rparr>"
  let ?s2 = "?s1\<lparr>t_offset := Some (length t), t_stringValue := None,
      p_offset := Suc (length t), t_text := Some [], t_kind := Some 0\<rparr>"
  have s1: "scan (new_Scanner t) = Returns ?s1" using assms by (rule scan_whitespace_text)
  have s2: "scan ?s1 = Returns ?s2" using scan_at_end [of ?s1] by simp
  have w2: "takeWhitespace ?s2 = Returns ?s2"
    by (subst takeWhitespace.simps) (simp add: eof_def)
  have w1: "takeWhitespace ?s1 = Returns ?s2"
    using s2 w2 by (subst takeWhitespace.simps) (simp add: eof_def take_token_def)
  have "parseQuery_gen ?s1 = ([], Finished)"
    using w1 by (subst parseQuery_gen.simps) (simp add: eof_def)
  then show ?thesis using s1 by (simp add: parseQuery_def QueryList_parse_def)
qed

text \<open>
  C9 (as the code has it). For the empty text and for every text that consists only of
  the single-line white space characters (those \<open>scan\<close> makes \<open>Whitespace\<close>
  tokens of), \<open>parseQuery\<close> returns a valid \<open>QueryList\<close> with no queries, which
  matches no context.
\<close>

theorem whitespace_only_query:
  assumes "\<forall>u \<in> set t. whitespaceCase (Some u)"
  shows "\<exists>ql. parseQuery t = Returns ql \<and> isValid ql \<and> length (queries ql) = 0 \<and>
           (\<forall>properties. match ql properties = False)"
proof -
  have "parseQuery t = Returns \<lparr>queries = [], error = None\<rparr>"
    using assms parseQuery_empty parseQuery_whitespace by (cases "t = []") auto
  then show ?thesis by (simp add: isValid_def match_def)
qed

theorem whitespace_only_query_witness:
  "whitespaceCase (Some 32) \<and> whitespaceCase (Some 9) \<and> whitespaceCase (Some 160) \<and>
   parseQuery [32, 9, 160] = Returns \<lparr>queries = [], error = None\<rparr> \<and>
   parseQuery [] = Returns \<lparr>queries = [], error = None\<rparr>"
  using whitespace_only_query [of "[32, 9, 160]"] whitespace_only_query [of "[]"]
  by (auto simp: whitespaceCase_def isValid_def intro: query_list.equality)

text \<open>
  The claim C9 as stated covers every text of white space. A line feed is a
  \<open>NewLine\<close> token, which \<open>takeWhitespace\<close> does not skip: the text of one line feed
  gives a \<open>QueryList\<close> that is not valid.
\<close>

theorem line_feed_counterexample:
  "parseQuery [10] = Returns \<lparr>queries = [], error = Some (ExpectedExpression (Some [10]))\<rparr>
   \<and> \<not> isValid \<lparr>queries = [], error = Some (ExpectedExpression (Some [10]))\<rparr>"
  by (simp add: scanner_defs parser_defs isValid_def)

end
